theory Spec2Isabelle
  imports Main
begin

section \<open>Data model\<close>

text \<open>
  The entities of \<^verbatim>\<open>models/User.js\<close>, \<^verbatim>\<open>models/Device.js\<close> and \<^verbatim>\<open>models/Shop.js\<close>.
  An ObjectId is its string form (the controllers compare ids through \<^verbatim>\<open>toString()\<close>),
  a \<^verbatim>\<open>Date\<close> is a millisecond count, a nullable field is an \<open>option\<close>.
  The schema type \<^verbatim>\<open>Number\<close> is modelled by \<open>int\<close> for amounts and \<open>nat\<close> for counters,
  so the only falsy number is \<open>0\<close>. Field names carry a prefix where two schemas use the
  same name. Fields that none of the modelled operations reads or writes
  (password, address, deviceInfo, security, contact and business information, settings,
  timestamps) are left out.
\<close>

type_synonym oid = string
type_synonym date = nat

datatype role = Superadmin | Shopowner | UserRole

record EmiDetails =
  totalAmount :: int
  paidAmount :: int
  remainingAmount :: int
  monthlyEmi :: int
  dueDate :: "date option"
  nextDueDate :: "date option"
  emi_status :: string

record DeviceStatus =
  ds_isLocked :: bool
  lastLockedAt :: "date option"
  lastUnlockedAt :: "date option"
  ds_lockReason :: "string option"

record User =
  u_id :: oid
  u_name :: string
  u_phone :: string
  u_email :: "string option"
  u_role :: role
  u_shop :: "oid option"
  u_deviceId :: "string option"
  u_imeiNumber :: "string option"
  emiDetails :: EmiDetails
  deviceStatus :: DeviceStatus
  u_isActive :: bool

record LockStatus =
  ls_isLocked :: bool
  lockedAt :: "date option"
  unlockedAt :: "date option"
  ls_lockReason :: "string option"
  lockedBy :: "oid option"

record ConnectionStatus =
  isOnline :: bool
  lastSeen :: "date option"
  lastHeartbeat :: "date option"
  connectionType :: string

record Device =
  d_id :: oid
  d_user :: oid
  d_shop :: oid
  d_deviceId :: string
  d_imeiNumber :: string
  lockStatus :: LockStatus
  connectionStatus :: ConnectionStatus
  d_isActive :: bool

record Statistics =
  totalUsers :: nat
  activeUsers :: nat
  lockedDevices :: nat
  totalRevenue :: int

record Shop =
  s_id :: oid
  s_name :: string
  statistics :: Statistics
  s_isActive :: bool

text \<open>
  The entity store: one list per collection, in storage order. \<open>statsRuns\<close> is not a
  collection: it records, in order, the shop id of every run of \<^verbatim>\<open>updateStatistics\<close>, so
  that the number of recomputations of a request can be stated.
\<close>

record world =
  devices :: "Device list"
  users :: "User list"
  shops :: "Shop list"
  statsRuns :: "oid list"

text \<open>What a handler can throw: a failed schema validator (path and offending value), or
  a property read on \<^verbatim>\<open>null\<close> (the expression read).\<close>

datatype exn = ValidationError string string | TypeError string

subsection \<open>Queries\<close>

definition User_findById :: "oid \<Rightarrow> world \<Rightarrow> User option" where
  "User_findById i w = find (\<lambda>u. u_id u = i) (users w)"

definition Shop_findById :: "oid \<Rightarrow> world \<Rightarrow> Shop option" where
  "Shop_findById i w = find (\<lambda>s. s_id s = i) (shops w)"

definition Device_findOne :: "(Device \<Rightarrow> bool) \<Rightarrow> world \<Rightarrow> Device option" where
  "Device_findOne flt w = find flt (devices w)"

definition Device_find :: "(Device \<Rightarrow> bool) \<Rightarrow> world \<Rightarrow> Device list" where
  "Device_find flt w = filter flt (devices w)"

text \<open>\<^verbatim>\<open>populate('shop')\<close> on a user: the referenced shop, or \<^verbatim>\<open>null\<close>.\<close>

definition populateShop :: "User \<Rightarrow> world \<Rightarrow> Shop option" where
  "populateShop u w = (case u_shop u of None \<Rightarrow> None | Some sid \<Rightarrow> Shop_findById sid w)"

subsection \<open>User: the pre-save hook and save (models/User.js)\<close>

text \<open>
  \<^verbatim>\<open>if (this.emiDetails.totalAmount && this.emiDetails.paidAmount) { remainingAmount = totalAmount - paidAmount }\<close>.
  The guard is JavaScript truthiness: a number passes when it is not zero.
\<close>

definition truthy :: "int \<Rightarrow> bool" where
  "truthy n = (n \<noteq> 0)"

definition preSaveRemaining :: "User \<Rightarrow> User" where
  "preSaveRemaining u =
     (if truthy (totalAmount (emiDetails u)) \<and> truthy (paidAmount (emiDetails u))
      then u\<lparr>emiDetails := (emiDetails u)\<lparr>remainingAmount :=
                 totalAmount (emiDetails u) - paidAmount (emiDetails u)\<rparr>\<rparr>
      else u)"

text \<open>
  \<^verbatim>\<open>user.save()\<close> on a document loaded from the store: the pre-save hooks run, then the
  document replaces the stored one with its id. The password hook returns at once unless
  the password was modified, which no modelled operation does. The paths the modelled
  operations assign on a user (\<^verbatim>\<open>deviceStatus.*\<close>, \<^verbatim>\<open>deviceId\<close>, \<^verbatim>\<open>imeiNumber\<close>) carry no
  validator and the other fields are taken to be valid as stored, so this save does not
  throw.
\<close>

definition User_save :: "User \<Rightarrow> world \<Rightarrow> world" where
  "User_save u w =
     (let u' = preSaveRemaining u in
      w\<lparr>users := map (\<lambda>x. if u_id x = u_id u' then u' else x) (users w)\<rparr>)"

subsection \<open>Shop: updateStatistics (models/Shop.js)\<close>

text \<open>
  The aggregation pipeline \<^verbatim>\<open>$match {shop: this._id}\<close>, \<^verbatim>\<open>$group {_id: null, ...}\<close>: no
  group when no user matches, otherwise one group with the four accumulators.
\<close>

definition aggregateStats :: "oid \<Rightarrow> world \<Rightarrow> Statistics list" where
  "aggregateStats sid w =
     (let us = filter (\<lambda>u. u_shop u = Some sid) (users w) in
      if us = [] then []
      else [\<lparr>totalUsers = length us,
             activeUsers = length (filter u_isActive us),
             lockedDevices = length (filter (\<lambda>u. ds_isLocked (deviceStatus u)) us),
             totalRevenue = sum_list (map (\<lambda>u. paidAmount (emiDetails u)) us)\<rparr>])"

text \<open>\<^verbatim>\<open>x || 0\<close> on a number.\<close>

definition orZero :: "'a::zero \<Rightarrow> 'a" where
  "orZero x = (if x = 0 then 0 else x)"

text \<open>
  \<^verbatim>\<open>this.save()\<close> on a shop: the document replaces the stored one with its id. When the
  \<^verbatim>\<open>if (stats.length > 0)\<close> branch is not taken the document has no modified path, and
  saving it writes nothing.
\<close>

definition Shop_save :: "Shop \<Rightarrow> world \<Rightarrow> world" where
  "Shop_save s w = w\<lparr>shops := map (\<lambda>x. if s_id x = s_id s then s else x) (shops w)\<rparr>"

definition updateStatistics :: "Shop \<Rightarrow> world \<Rightarrow> world" where
  "updateStatistics this w =
     (let stats = aggregateStats (s_id this) w;
          w' = w\<lparr>statsRuns := statsRuns w @ [s_id this]\<rparr>
      in case stats of
           [] \<Rightarrow> w'
         | st # _ \<Rightarrow> Shop_save (this\<lparr>statistics :=
                        \<lparr>totalUsers = orZero (totalUsers st),
                         activeUsers = orZero (activeUsers st),
                         lockedDevices = orZero (lockedDevices st),
                         totalRevenue = orZero (totalRevenue st)\<rparr>\<rparr>) w')"

subsection \<open>Device: save, lockDevice, unlockDevice (models/Device.js)\<close>

definition lockReasonEnum :: "string list" where
  "lockReasonEnum = [''emi_default'', ''manual_lock'', ''suspicious_activity'', ''maintenance'']"

definition isDigit :: "char \<Rightarrow> bool" where
  "isDigit c = (c \<in> set ''0123456789'')"

text \<open>
  \<^verbatim>\<open>this.save()\<close> on a device loaded from the store runs the schema validators and then
  stores the document under its id. The fields that \<^verbatim>\<open>lockDevice\<close> and \<^verbatim>\<open>unlockDevice\<close>
  leave alone (\<^verbatim>\<open>deviceId\<close>, \<^verbatim>\<open>imeiNumber\<close>) are taken to be valid as stored, so the validator
  that decides is the \<^verbatim>\<open>enum\<close> of \<^verbatim>\<open>lockStatus.lockReason\<close> (\<^verbatim>\<open>null\<close> passes). A failing
  validator rejects the save and nothing is stored.
\<close>

definition Device_validate :: "Device \<Rightarrow> exn option" where
  "Device_validate d =
     (case ls_lockReason (lockStatus d) of
        None \<Rightarrow> None
      | Some r \<Rightarrow> if r \<in> set lockReasonEnum then None
                  else Some (ValidationError ''lockStatus.lockReason'' r))"

definition Device_save :: "Device \<Rightarrow> world \<Rightarrow> exn + world" where
  "Device_save d w =
     (case Device_validate d of
        Some e \<Rightarrow> Inl e
      | None \<Rightarrow> Inr (w\<lparr>devices := map (\<lambda>x. if d_id x = d_id d then d else x) (devices w)\<rparr>))"

text \<open>
  \<^verbatim>\<open>new Device(deviceData)\<close> followed by \<^verbatim>\<open>save()\<close>: every validator runs (\<^verbatim>\<open>required\<close> on
  \<^verbatim>\<open>deviceId\<close>, the fifteen-digit pattern of \<^verbatim>\<open>imeiNumber\<close>, the enum above) and the
  document is appended to the collection.
\<close>

definition Device_insert :: "Device \<Rightarrow> world \<Rightarrow> exn + world" where
  "Device_insert d w =
     (if d_deviceId d = [] then Inl (ValidationError ''deviceId'' (d_deviceId d))
      else if \<not> (length (d_imeiNumber d) = 15 \<and> list_all isDigit (d_imeiNumber d))
        then Inl (ValidationError ''imeiNumber'' (d_imeiNumber d))
      else case Device_validate d of
             Some e \<Rightarrow> Inl e
           | None \<Rightarrow> Inr (w\<lparr>devices := devices w @ [d]\<rparr>))"

text \<open>\<^verbatim>\<open>reason || 'emi_default'\<close>: the empty string is falsy.\<close>

definition Device_lockDevice :: "Device \<Rightarrow> string \<Rightarrow> oid \<Rightarrow> date \<Rightarrow> world \<Rightarrow> exn + (Device \<times> world)" where
  "Device_lockDevice this reason by now w =
     (let this' = this\<lparr>lockStatus := (lockStatus this)
                    \<lparr>ls_isLocked := True,
                     lockedAt := Some now,
                     ls_lockReason := Some (if reason = [] then ''emi_default'' else reason),
                     lockedBy := Some by\<rparr>\<rparr>
      in case Device_save this' w of Inl e \<Rightarrow> Inl e | Inr w' \<Rightarrow> Inr (this', w'))"

definition Device_unlockDevice :: "Device \<Rightarrow> date \<Rightarrow> world \<Rightarrow> exn + (Device \<times> world)" where
  "Device_unlockDevice this now w =
     (let this' = this\<lparr>lockStatus := (lockStatus this)
                    \<lparr>ls_isLocked := False,
                     unlockedAt := Some now\<rparr>\<rparr>
      in case Device_save this' w of Inl e \<Rightarrow> Inl e | Inr w' \<Rightarrow> Inr (this', w'))"

section \<open>Requests and responses\<close>

text \<open>
  \<^verbatim>\<open>req.user\<close> as \<^verbatim>\<open>verifyToken\<close> leaves it: the caller's user document with \<^verbatim>\<open>shop\<close>
  populated (the shop document, or \<^verbatim>\<open>null\<close>).
\<close>

record CurrentUser =
  cu_doc :: User
  cu_shop :: "Shop option"

text \<open>A device as \<^verbatim>\<open>populate('user shop')\<close> returns it.\<close>

record PopDevice =
  pd_doc :: Device
  pd_user :: "User option"
  pd_shop :: "Shop option"

definition populateUserShop :: "Device \<Rightarrow> world \<Rightarrow> PopDevice" where
  "populateUserShop d w =
     \<lparr>pd_doc = d, pd_user = User_findById (d_user d) w, pd_shop = Shop_findById (d_shop d) w\<rparr>"

text \<open>
  The entries of a bulk result. A failure reason is either a literal of the controller or
  the \<^verbatim>\<open>error.message\<close> of what the per-device \<^verbatim>\<open>catch\<close> caught.
\<close>

record ResultOk =
  r_deviceId :: oid
  r_deviceName :: string
  r_userName :: string

datatype reason = Literal string | MessageOf exn

record ResultFailed =
  f_deviceId :: oid
  f_deviceName :: string
  f_reason :: reason

record Results =
  successful :: "ResultOk list"
  failed :: "ResultFailed list"

text \<open>
  The device object of a lock or unlock response, assembled field by field; a key of
  \<^verbatim>\<open>lockStatus\<close> that the response leaves out is \<open>None\<close>.
\<close>

record ResponseDevice =
  rd_id :: oid
  rd_deviceId :: string
  rd_imeiNumber :: string
  rd_lockStatus :: LockStatus
  rd_connectionStatus :: ConnectionStatus
  rd_isActive :: bool
  rd_user :: "oid \<times> string \<times> string \<times> DeviceStatus"
  rd_shop :: "oid \<times> string"

record Pagination =
  currentPage :: nat
  totalPages :: nat
  totalItems :: nat
  itemsPerPage :: nat
  hasNextPage :: bool
  hasPrevPage :: bool

datatype payload =
    NoData
  | DeviceData ResponseDevice
  | BulkData Results
  | RegisteredData Device
  | UsersData "User list" Pagination

datatype message =
    Text string
  | BulkLockCompleted nat nat
  | BulkUnlockCompleted nat nat
  | NoMessage

text \<open>
  The response envelope \<^verbatim>\<open>{success, message, data}\<close> with its HTTP status. The \<^verbatim>\<open>error\<close>
  key, present in development mode only, is left out.
\<close>

record response =
  status :: nat
  success :: bool
  message :: message
  data :: payload

definition respond :: "nat \<Rightarrow> bool \<Rightarrow> message \<Rightarrow> payload \<Rightarrow> response" where
  "respond st ok msg dat = \<lparr>status = st, success = ok, message = msg, data = dat\<rparr>"

definition fail :: "nat \<Rightarrow> string \<Rightarrow> response" where
  "fail st msg = respond st False (Text msg) NoData"

section \<open>Device controller\<close>

text \<open>
  Each handler takes the parsed request (parameters, body fields, \<^verbatim>\<open>req.user\<close>), the
  reading of \<^verbatim>\<open>new Date()\<close> and the store, and returns the response with the store it
  leaves. A request body field that is absent is \<open>None\<close>, so that the destructuring
  default applies; a present \<^verbatim>\<open>reason\<close> is a string. The readings of \<^verbatim>\<open>new Date()\<close> within
  one request are taken to be the same instant. An exception that reaches the outer
  \<^verbatim>\<open>catch\<close> gives the 500 response, and the writes made before it stay.
\<close>

definition lockResponseDevice :: "Device \<Rightarrow> User \<Rightarrow> Shop \<Rightarrow> ResponseDevice" where
  "lockResponseDevice device user shop =
     \<lparr>rd_id = d_id device, rd_deviceId = d_deviceId device, rd_imeiNumber = d_imeiNumber device,
      rd_lockStatus = \<lparr>ls_isLocked = ls_isLocked (lockStatus device),
                       lockedAt = lockedAt (lockStatus device),
                       unlockedAt = None,
                       ls_lockReason = ls_lockReason (lockStatus device),
                       lockedBy = lockedBy (lockStatus device)\<rparr>,
      rd_connectionStatus = connectionStatus device, rd_isActive = d_isActive device,
      rd_user = (u_id user, u_name user, u_phone user, deviceStatus user),
      rd_shop = (s_id shop, s_name shop)\<rparr>"

definition unlockResponseDevice :: "Device \<Rightarrow> User \<Rightarrow> Shop \<Rightarrow> ResponseDevice" where
  "unlockResponseDevice device user shop =
     \<lparr>rd_id = d_id device, rd_deviceId = d_deviceId device, rd_imeiNumber = d_imeiNumber device,
      rd_lockStatus = \<lparr>ls_isLocked = ls_isLocked (lockStatus device),
                       lockedAt = None,
                       unlockedAt = unlockedAt (lockStatus device),
                       ls_lockReason = ls_lockReason (lockStatus device),
                       lockedBy = None\<rparr>,
      rd_connectionStatus = connectionStatus device, rd_isActive = d_isActive device,
      rd_user = (u_id user, u_name user, u_phone user, deviceStatus user),
      rd_shop = (s_id shop, s_name shop)\<rparr>"

subsection \<open>The query filters\<close>

text \<open>
  The filter objects the handlers build: \<^verbatim>\<open>{ _id: deviceId }\<close> or
  \<^verbatim>\<open>{ _id: { $in: deviceIds } }\<close>, with the key \<^verbatim>\<open>shop\<close> added for a shop owner
  (\<open>Some\<close> the caller's shop id) and absent otherwise (\<open>None\<close>).
\<close>

definition filterById :: "oid \<Rightarrow> oid option \<Rightarrow> Device \<Rightarrow> bool" where
  "filterById deviceId shop d =
     (d_id d = deviceId \<and> (case shop of None \<Rightarrow> True | Some sid \<Rightarrow> d_shop d = sid))"

definition filterByIds :: "oid list \<Rightarrow> oid option \<Rightarrow> Device \<Rightarrow> bool" where
  "filterByIds deviceIds shop d =
     (d_id d \<in> set deviceIds \<and> (case shop of None \<Rightarrow> True | Some sid \<Rightarrow> d_shop d = sid))"

subsection \<open>lockDevice\<close>

text \<open>The handler from \<^verbatim>\<open>Device.findOne(filter).populate('user shop')\<close> on.\<close>

definition lockFound :: "(Device \<Rightarrow> bool) \<Rightarrow> string \<Rightarrow> CurrentUser \<Rightarrow> date \<Rightarrow> world \<Rightarrow> response \<times> world" where
  "lockFound flt reason currentUser now w =
     (case Device_findOne flt w of
        None \<Rightarrow> (fail 404 ''Device not found'', w)
      | Some d \<Rightarrow>
          let device = populateUserShop d w in
          if ls_isLocked (lockStatus (pd_doc device))
          then (fail 400 ''Device is already locked'', w)
          else
            (case Device_lockDevice (pd_doc device) reason (u_id (cu_doc currentUser)) now w of
               Inl e \<Rightarrow> (fail 500 ''Server error while locking device'', w)
             | Inr (doc, w1) \<Rightarrow>
                 (case pd_user device of
                    None \<Rightarrow> (fail 500 ''Server error while locking device'', w1)
                  | Some user0 \<Rightarrow>
                      let user = user0\<lparr>deviceStatus := (deviceStatus user0)
                                   \<lparr>ds_isLocked := True,
                                    lastLockedAt := Some now,
                                    ds_lockReason := Some reason\<rparr>\<rparr>;
                          w2 = User_save user w1
                      in (case pd_shop device of
                            None \<Rightarrow> (fail 500 ''Server error while locking device'', w2)
                          | Some shop \<Rightarrow>
                              (respond 200 True (Text ''Device locked successfully'')
                                 (DeviceData (lockResponseDevice doc user shop)),
                               updateStatistics shop w2)))))"

definition lockDevice :: "oid \<Rightarrow> string option \<Rightarrow> CurrentUser \<Rightarrow> date \<Rightarrow> world \<Rightarrow> response \<times> world" where
  "lockDevice deviceId reasonOpt currentUser now w =
     (let reason = (case reasonOpt of None \<Rightarrow> ''emi_default'' | Some r \<Rightarrow> r) in
      if u_role (cu_doc currentUser) = Shopowner then
        (case cu_shop currentUser of
           None \<Rightarrow> (fail 500 ''Server error while locking device'', w)
         | Some cs \<Rightarrow>
             lockFound (filterById deviceId (Some (s_id cs))) reason currentUser now w)
      else if u_role (cu_doc currentUser) = UserRole then
        (fail 403 ''Access denied. Users cannot lock devices.'', w)
      else lockFound (filterById deviceId None) reason currentUser now w)"

subsection \<open>unlockDevice\<close>

definition unlockFound :: "(Device \<Rightarrow> bool) \<Rightarrow> date \<Rightarrow> world \<Rightarrow> response \<times> world" where
  "unlockFound flt now w =
     (case Device_findOne flt w of
        None \<Rightarrow> (fail 404 ''Device not found'', w)
      | Some d \<Rightarrow>
          let device = populateUserShop d w in
          if \<not> ls_isLocked (lockStatus (pd_doc device))
          then (fail 400 ''Device is not locked'', w)
          else
            (case Device_unlockDevice (pd_doc device) now w of
               Inl e \<Rightarrow> (fail 500 ''Server error while unlocking device'', w)
             | Inr (doc, w1) \<Rightarrow>
                 (case pd_user device of
                    None \<Rightarrow> (fail 500 ''Server error while unlocking device'', w1)
                  | Some user0 \<Rightarrow>
                      let user = user0\<lparr>deviceStatus := (deviceStatus user0)
                                   \<lparr>ds_isLocked := False,
                                    lastUnlockedAt := Some now,
                                    ds_lockReason := None\<rparr>\<rparr>;
                          w2 = User_save user w1
                      in (case pd_shop device of
                            None \<Rightarrow> (fail 500 ''Server error while unlocking device'', w2)
                          | Some shop \<Rightarrow>
                              (respond 200 True (Text ''Device unlocked successfully'')
                                 (DeviceData (unlockResponseDevice doc user shop)),
                               updateStatistics shop w2)))))"

definition unlockDevice :: "oid \<Rightarrow> CurrentUser \<Rightarrow> date \<Rightarrow> world \<Rightarrow> response \<times> world" where
  "unlockDevice deviceId currentUser now w =
     (if u_role (cu_doc currentUser) = Shopowner then
        (case cu_shop currentUser of
           None \<Rightarrow> (fail 500 ''Server error while unlocking device'', w)
         | Some cs \<Rightarrow> unlockFound (filterById deviceId (Some (s_id cs))) now w)
      else if u_role (cu_doc currentUser) = UserRole then
        (fail 403 ''Access denied. Users cannot unlock devices.'', w)
      else unlockFound (filterById deviceId None) now w)"

subsection \<open>Bulk lock and bulk unlock\<close>

definition pushSuccessful :: "PopDevice \<Rightarrow> User \<Rightarrow> Results \<Rightarrow> Results" where
  "pushSuccessful device user results =
     results\<lparr>successful := successful results @
        [\<lparr>r_deviceId = d_id (pd_doc device), r_deviceName = d_deviceId (pd_doc device),
          r_userName = u_name user\<rparr>]\<rparr>"

definition pushFailed :: "PopDevice \<Rightarrow> reason \<Rightarrow> Results \<Rightarrow> Results" where
  "pushFailed device why results =
     results\<lparr>failed := failed results @
        [\<lparr>f_deviceId = d_id (pd_doc device), f_deviceName = d_deviceId (pd_doc device),
          f_reason = why\<rparr>]\<rparr>"

text \<open>
  The loop \<^verbatim>\<open>for (const device of devices)\<close> of \<^verbatim>\<open>bulkLockDevices\<close> with its per-device
  \<^verbatim>\<open>try\<close>/\<^verbatim>\<open>catch\<close>: whatever the body throws becomes a \<^verbatim>\<open>failed\<close> entry and the loop
  goes on. The documents are the ones loaded before the loop.
\<close>

fun bulkLockEach :: "PopDevice list \<Rightarrow> string \<Rightarrow> oid \<Rightarrow> date \<Rightarrow> Results \<Rightarrow> world \<Rightarrow> Results \<times> world" where
  "bulkLockEach [] reason by now results w = (results, w)"
| "bulkLockEach (device # rest) reason by now results w =
     (if \<not> ls_isLocked (lockStatus (pd_doc device)) then
        (case Device_lockDevice (pd_doc device) reason by now w of
           Inl e \<Rightarrow> bulkLockEach rest reason by now (pushFailed device (MessageOf e) results) w
         | Inr (doc, w1) \<Rightarrow>
             (case pd_user device of
                None \<Rightarrow> bulkLockEach rest reason by now
                          (pushFailed device (MessageOf (TypeError ''user.deviceStatus'')) results) w1
              | Some user0 \<Rightarrow>
                  let user = user0\<lparr>deviceStatus := (deviceStatus user0)
                               \<lparr>ds_isLocked := True,
                                lastLockedAt := Some now,
                                ds_lockReason := Some reason\<rparr>\<rparr>
                  in bulkLockEach rest reason by now (pushSuccessful device user results)
                       (User_save user w1)))
      else bulkLockEach rest reason by now (pushFailed device (Literal ''Already locked'') results) w)"

fun bulkUnlockEach :: "PopDevice list \<Rightarrow> date \<Rightarrow> Results \<Rightarrow> world \<Rightarrow> Results \<times> world" where
  "bulkUnlockEach [] now results w = (results, w)"
| "bulkUnlockEach (device # rest) now results w =
     (if ls_isLocked (lockStatus (pd_doc device)) then
        (case Device_unlockDevice (pd_doc device) now w of
           Inl e \<Rightarrow> bulkUnlockEach rest now (pushFailed device (MessageOf e) results) w
         | Inr (doc, w1) \<Rightarrow>
             (case pd_user device of
                None \<Rightarrow> bulkUnlockEach rest now
                          (pushFailed device (MessageOf (TypeError ''user.deviceStatus'')) results) w1
              | Some user0 \<Rightarrow>
                  let user = user0\<lparr>deviceStatus := (deviceStatus user0)
                               \<lparr>ds_isLocked := False,
                                lastUnlockedAt := Some now,
                                ds_lockReason := None\<rparr>\<rparr>
                  in bulkUnlockEach rest now (pushSuccessful device user results)
                       (User_save user w1)))
      else bulkUnlockEach rest now (pushFailed device (Literal ''Not locked'') results) w)"

text \<open>
  \<^verbatim>\<open>devices.map(d => d.shop._id.toString())\<close> throws on the first device whose shop
  populated to \<^verbatim>\<open>null\<close>.
\<close>

fun shopIdsOf :: "PopDevice list \<Rightarrow> exn + oid list" where
  "shopIdsOf [] = Inr []"
| "shopIdsOf (d # ds) =
     (case pd_shop d of
        None \<Rightarrow> Inl (TypeError ''d.shop._id'')
      | Some shop \<Rightarrow> (case shopIdsOf ds of Inl e \<Rightarrow> Inl e | Inr ids \<Rightarrow> Inr (s_id shop # ids)))"

text \<open>\<^verbatim>\<open>[...new Set(xs)]\<close>: the distinct elements in the order of their first occurrence.\<close>

definition newSet :: "'a list \<Rightarrow> 'a list" where
  "newSet xs = foldl (\<lambda>acc x. if x \<in> set acc then acc else acc @ [x]) [] xs"

text \<open>The loop \<^verbatim>\<open>for (const shopId of shopIds)\<close>.\<close>

fun updateShops :: "oid list \<Rightarrow> world \<Rightarrow> world" where
  "updateShops [] w = w"
| "updateShops (shopId # rest) w =
     (case Shop_findById shopId w of
        None \<Rightarrow> updateShops rest w
      | Some shop \<Rightarrow> updateShops rest (updateStatistics shop w))"

definition bulkLockFound :: "(Device \<Rightarrow> bool) \<Rightarrow> string \<Rightarrow> CurrentUser \<Rightarrow> date \<Rightarrow> world \<Rightarrow> response \<times> world" where
  "bulkLockFound flt reason currentUser now w =
     (let devs = map (\<lambda>d. populateUserShop d w) (Device_find flt w) in
      if devs = [] then (fail 404 ''No devices found'', w)
      else
        (case bulkLockEach devs reason (u_id (cu_doc currentUser)) now
                \<lparr>successful = [], failed = []\<rparr> w of
           (results, w1) \<Rightarrow>
             (case shopIdsOf devs of
                Inl e \<Rightarrow> (fail 500 ''Server error during bulk lock operation'', w1)
              | Inr ids \<Rightarrow>
                  (respond 200 True
                     (BulkLockCompleted (length (successful results)) (length (failed results)))
                     (BulkData results),
                   updateShops (newSet ids) w1))))"

definition bulkLockDevices :: "oid list \<Rightarrow> string option \<Rightarrow> CurrentUser \<Rightarrow> date \<Rightarrow> world \<Rightarrow> response \<times> world" where
  "bulkLockDevices deviceIds reasonOpt currentUser now w =
     (let reason = (case reasonOpt of None \<Rightarrow> ''bulk_operation'' | Some r \<Rightarrow> r) in
      if deviceIds = [] then (fail 400 ''Device IDs array is required'', w)
      else if u_role (cu_doc currentUser) = UserRole then
        (fail 403 ''Access denied. Users cannot perform bulk operations.'', w)
      else if u_role (cu_doc currentUser) = Shopowner then
        (case cu_shop currentUser of
           None \<Rightarrow> (fail 500 ''Server error during bulk lock operation'', w)
         | Some cs \<Rightarrow>
             bulkLockFound (filterByIds deviceIds (Some (s_id cs))) reason currentUser now w)
      else bulkLockFound (filterByIds deviceIds None) reason currentUser now w)"

definition bulkUnlockFound :: "(Device \<Rightarrow> bool) \<Rightarrow> date \<Rightarrow> world \<Rightarrow> response \<times> world" where
  "bulkUnlockFound flt now w =
     (let devs = map (\<lambda>d. populateUserShop d w) (Device_find flt w) in
      if devs = [] then (fail 404 ''No devices found'', w)
      else
        (case bulkUnlockEach devs now \<lparr>successful = [], failed = []\<rparr> w of
           (results, w1) \<Rightarrow>
             (case shopIdsOf devs of
                Inl e \<Rightarrow> (fail 500 ''Server error during bulk unlock operation'', w1)
              | Inr ids \<Rightarrow>
                  (respond 200 True
                     (BulkUnlockCompleted (length (successful results)) (length (failed results)))
                     (BulkData results),
                   updateShops (newSet ids) w1))))"

definition bulkUnlockDevices :: "oid list \<Rightarrow> CurrentUser \<Rightarrow> date \<Rightarrow> world \<Rightarrow> response \<times> world" where
  "bulkUnlockDevices deviceIds currentUser now w =
     (if deviceIds = [] then (fail 400 ''Device IDs array is required'', w)
      else if u_role (cu_doc currentUser) = UserRole then
        (fail 403 ''Access denied. Users cannot perform bulk operations.'', w)
      else if u_role (cu_doc currentUser) = Shopowner then
        (case cu_shop currentUser of
           None \<Rightarrow> (fail 500 ''Server error during bulk unlock operation'', w)
         | Some cs \<Rightarrow> bulkUnlockFound (filterByIds deviceIds (Some (s_id cs))) now w)
      else bulkUnlockFound (filterByIds deviceIds None) now w)"

subsection \<open>registerDevice\<close>

text \<open>
  The access check of \<^verbatim>\<open>registerDevice\<close>: \<open>Inr None\<close> lets the request through,
  \<open>Inr (Some r)\<close> answers it, \<open>Inl e\<close> is a throw (a shop that populated to \<^verbatim>\<open>null\<close>).
\<close>

definition registerAccess :: "User \<Rightarrow> Shop option \<Rightarrow> oid \<Rightarrow> CurrentUser \<Rightarrow> exn + response option" where
  "registerAccess user userShop userId currentUser =
     (if u_role (cu_doc currentUser) = Shopowner then
        (case userShop of
           None \<Rightarrow> Inl (TypeError ''user.shop._id'')
         | Some us \<Rightarrow>
             (case cu_shop currentUser of
                None \<Rightarrow> Inl (TypeError ''currentUser.shop._id'')
              | Some cs \<Rightarrow>
                  if s_id us \<noteq> s_id cs
                  then Inr (Some (fail 403 ''Access denied. User not in your shop.''))
                  else Inr None))
      else if u_role (cu_doc currentUser) = UserRole then
        (if u_id (cu_doc currentUser) \<noteq> userId
         then Inr (Some (fail 403 ''Access denied. You can only register your own device.''))
         else Inr None)
      else Inr None)"

text \<open>
  The new device document with the schema defaults. \<open>newId\<close> is the ObjectId the driver
  generates. \<^verbatim>\<open>deviceId\<close> and \<^verbatim>\<open>imeiNumber\<close> are taken as the route's sanitizer leaves
  them (trimmed).
\<close>

definition newDevice :: "oid \<Rightarrow> oid \<Rightarrow> oid \<Rightarrow> string \<Rightarrow> string \<Rightarrow> date \<Rightarrow> Device" where
  "newDevice newId userId shopId deviceId imeiNumber now =
     \<lparr>d_id = newId, d_user = userId, d_shop = shopId,
      d_deviceId = deviceId, d_imeiNumber = imeiNumber,
      lockStatus = \<lparr>ls_isLocked = False, lockedAt = None, unlockedAt = None,
                    ls_lockReason = Some ''emi_default'', lockedBy = None\<rparr>,
      connectionStatus = \<lparr>isOnline = True, lastSeen = Some now, lastHeartbeat = Some now,
                          connectionType = ''offline''\<rparr>,
      d_isActive = True\<rparr>"

definition registerDevice :: "oid \<Rightarrow> string \<Rightarrow> string \<Rightarrow> CurrentUser \<Rightarrow> oid \<Rightarrow> date \<Rightarrow> world \<Rightarrow> response \<times> world" where
  "registerDevice userId deviceId imeiNumber currentUser newId now w =
     (case User_findById userId w of
        None \<Rightarrow> (fail 404 ''User not found'', w)
      | Some user0 \<Rightarrow>
          let userShop = populateShop user0 w in
          (case registerAccess user0 userShop userId currentUser of
             Inl e \<Rightarrow> (fail 500 ''Server error while registering device'', w)
           | Inr (Some denied) \<Rightarrow> (denied, w)
           | Inr None \<Rightarrow>
               (case Device_findOne (\<lambda>d. d_deviceId d = deviceId \<or> d_imeiNumber d = imeiNumber) w of
                  Some existingDevice \<Rightarrow>
                    (fail 400 ''Device with this ID or IMEI already exists'', w)
                | None \<Rightarrow>
                    (case userShop of
                       None \<Rightarrow> (fail 500 ''Server error while registering device'', w)
                     | Some shop \<Rightarrow>
                         let device = newDevice newId userId (s_id shop) deviceId imeiNumber now in
                         (case Device_insert device w of
                            Inl e \<Rightarrow> (fail 500 ''Server error while registering device'', w)
                          | Inr w1 \<Rightarrow>
                              let user = user0\<lparr>u_deviceId := Some deviceId,
                                               u_imeiNumber := Some imeiNumber\<rparr>;
                                  w2 = User_save user w1
                              in (respond 201 True (Text ''Device registered successfully'')
                                    (RegisteredData device),
                                  updateStatistics shop w2))))))"

section \<open>User controller: getUsers\<close>

text \<open>
  The query string after the destructuring defaults, with \<^verbatim>\<open>page\<close> and \<^verbatim>\<open>limit\<close> parsed.
  The case-insensitive \<^verbatim>\<open>$regex\<close> match and the sort of the database are parameters
  \<open>rx\<close> and \<open>srt\<close> of the handler.
\<close>

record UsersQuery =
  q_page :: nat
  q_limit :: nat
  q_search :: string
  q_role :: string
  q_status :: string
  q_sortBy :: string
  q_sortOrder :: string

definition roleName :: "role \<Rightarrow> string" where
  "roleName r = (case r of Superadmin \<Rightarrow> ''superadmin'' | Shopowner \<Rightarrow> ''shopowner'' | UserRole \<Rightarrow> ''user'')"

text \<open>
  The filter object as a predicate. \<open>base\<close> is the part set from the caller's role;
  \<^verbatim>\<open>filter.role = role\<close> overwrites the shop owner's \<^verbatim>\<open>{ $ne: 'superadmin' }\<close>.
\<close>

definition usersFilter :: "(string \<Rightarrow> string \<Rightarrow> bool) \<Rightarrow> UsersQuery \<Rightarrow> (User \<Rightarrow> bool) \<Rightarrow> bool \<Rightarrow> User \<Rightarrow> bool" where
  "usersFilter rx q base owner u =
     (base u
      \<and> (if q_role q \<noteq> [] then roleName (u_role u) = q_role q
         else if owner then u_role u \<noteq> Superadmin else True)
      \<and> (if q_search q \<noteq> []
         then rx (q_search q) (u_name u) \<or> rx (q_search q) (u_phone u)
              \<or> (case u_email u of None \<Rightarrow> False | Some e \<Rightarrow> rx (q_search q) e)
         else True)
      \<and> (if q_status q = ''active'' then u_isActive u
         else if q_status q = ''inactive'' then \<not> u_isActive u else True))"

text \<open>\<^verbatim>\<open>Math.ceil(total / limit)\<close> for a positive \<^verbatim>\<open>limit\<close>.\<close>

definition ceilDiv :: "nat \<Rightarrow> nat \<Rightarrow> nat" where
  "ceilDiv n limit = (n + limit - 1) div limit"

definition getUsersWith :: "(string \<Rightarrow> string \<Rightarrow> bool) \<Rightarrow> (string \<Rightarrow> bool \<Rightarrow> User list \<Rightarrow> User list) \<Rightarrow>
    (User \<Rightarrow> bool) \<Rightarrow> bool \<Rightarrow> UsersQuery \<Rightarrow> world \<Rightarrow> response \<times> world" where
  "getUsersWith rx srt base owner q w =
     (let matching = filter (usersFilter rx q base owner) (users w);
          skip = (q_page q - 1) * q_limit q;
          found = take (q_limit q) (drop skip (srt (q_sortBy q) (q_sortOrder q = ''desc'') matching));
          totalCount = length matching
      in (respond 200 True NoMessage
            (UsersData found
               \<lparr>currentPage = q_page q,
                totalPages = ceilDiv totalCount (q_limit q),
                totalItems = totalCount,
                itemsPerPage = q_limit q,
                hasNextPage = (q_page q < ceilDiv totalCount (q_limit q)),
                hasPrevPage = (q_page q > 1)\<rparr>),
          w))"

definition getUsers :: "(string \<Rightarrow> string \<Rightarrow> bool) \<Rightarrow> (string \<Rightarrow> bool \<Rightarrow> User list \<Rightarrow> User list) \<Rightarrow>
    UsersQuery \<Rightarrow> CurrentUser \<Rightarrow> world \<Rightarrow> response \<times> world" where
  "getUsers rx srt q currentUser w =
     (if u_role (cu_doc currentUser) = Shopowner then
        (case cu_shop currentUser of
           None \<Rightarrow> (fail 500 ''Server error while fetching users'', w)
         | Some cs \<Rightarrow> getUsersWith rx srt (\<lambda>u. u_shop u = Some (s_id cs)) True q w)
      else if u_role (cu_doc currentUser) = UserRole then
        getUsersWith rx srt (\<lambda>u. u_id u = u_id (cu_doc currentUser)) False q w
      else getUsersWith rx srt (\<lambda>u. True) False q w)"

section \<open>Middleware (middleware/auth.js, the validation middleware)\<close>

text \<open>
  What the \<^verbatim>\<open>Authorization\<close> header and \<^verbatim>\<open>jwt.verify\<close> give: no token, a token that fails
  verification, an expired token, or the user id of a valid token.
\<close>

datatype credential = NoToken | InvalidToken | ExpiredToken | ValidToken oid

definition startsWith :: "string \<Rightarrow> string \<Rightarrow> bool" where
  "startsWith s p = (take (length p) s = p)"

text \<open>
  A middleware takes the rest of the chain as \<open>next\<close>. \<^verbatim>\<open>verifyToken\<close> reads \<^verbatim>\<open>req.path\<close>
  and hands the populated caller to the rest of the chain.
\<close>

definition verifyToken :: "string \<Rightarrow> credential \<Rightarrow> (CurrentUser \<Rightarrow> world \<Rightarrow> response \<times> world) \<Rightarrow> world \<Rightarrow> response \<times> world" where
  "verifyToken path cred next w =
     (case cred of
        NoToken \<Rightarrow> (fail 401 ''Access denied. No token provided.'', w)
      | InvalidToken \<Rightarrow> (fail 401 ''Invalid token.'', w)
      | ExpiredToken \<Rightarrow> (fail 401 ''Token expired.'', w)
      | ValidToken userId \<Rightarrow>
          (case User_findById userId w of
             None \<Rightarrow> (fail 401 ''Invalid token. User not found.'', w)
           | Some user \<Rightarrow>
               if \<not> u_isActive user then (fail 401 ''Account is deactivated.'', w)
               else if \<not> startsWith path ''/api/mobile'' \<and> u_role user = UserRole
               then (fail 403 ''Web platform access restricted to admin users only'', w)
               else next \<lparr>cu_doc = user, cu_shop = populateShop user w\<rparr> w))"

definition authorize :: "role list \<Rightarrow> CurrentUser option \<Rightarrow> (world \<Rightarrow> response \<times> world) \<Rightarrow> world \<Rightarrow> response \<times> world" where
  "authorize roles reqUser next w =
     (case reqUser of
        None \<Rightarrow> (fail 401 ''Authentication required.'', w)
      | Some user \<Rightarrow>
          if u_role (cu_doc user) \<notin> set roles
          then (fail 403 ''Access denied. Insufficient permissions.'', w)
          else next w)"

definition isHex :: "char \<Rightarrow> bool" where
  "isHex c = (c \<in> set ''0123456789abcdefABCDEF'')"

text \<open>
  The validator library's \<^verbatim>\<open>isMongoId\<close>: 24 characters that match \<^verbatim>\<open>/^(0x|0h)?[0-9A-F]+$/i\<close>,
  so the prefix counts towards the length.
\<close>

definition isHexadecimal :: "string \<Rightarrow> bool" where
  "isHexadecimal s =
     ((s \<noteq> [] \<and> list_all isHex s) \<or>
      (take 2 s \<in> set [''0x'', ''0h'', ''0X'', ''0H''] \<and> drop 2 s \<noteq> [] \<and> list_all isHex (drop 2 s)))"

definition isMongoId :: "string \<Rightarrow> bool" where
  "isMongoId s = (isHexadecimal s \<and> length s = 24)"

definition validateObjectId :: "string \<Rightarrow> (world \<Rightarrow> response \<times> world) \<Rightarrow> world \<Rightarrow> response \<times> world" where
  "validateObjectId param next w =
     (if isMongoId param then next w else (fail 400 ''Validation failed'', w))"

definition validatePagination :: "UsersQuery \<Rightarrow> (world \<Rightarrow> response \<times> world) \<Rightarrow> world \<Rightarrow> response \<times> world" where
  "validatePagination q next w =
     (if 1 \<le> q_page q \<and> 1 \<le> q_limit q \<and> q_limit q \<le> 100 \<and> q_sortBy q \<noteq> []
         \<and> q_sortOrder q \<in> set [''asc'', ''desc'', ''1'', ''-1'']
      then next w else (fail 400 ''Validation failed'', w))"

text \<open>
  \<^verbatim>\<open>logActivity\<close> wraps \<^verbatim>\<open>res.json\<close>: on a status below 400 it starts an activity-log write
  that the request does not wait for and whose failure is swallowed. The ActivityLog
  collection is not part of the modelled store, so the middleware passes the request on.
\<close>

definition logActivity :: "(world \<Rightarrow> response \<times> world) \<Rightarrow> world \<Rightarrow> response \<times> world" where
  "logActivity next w = next w"

section \<open>Routes (routes/devices.js, the users router)\<close>

text \<open>
  \<^verbatim>\<open>router.use(verifyToken)\<close> runs before every route of a router; the handlers of a route
  follow in the order of its declaration. \<open>path\<close> is \<^verbatim>\<open>req.path\<close> as \<^verbatim>\<open>verifyToken\<close> sees it.
\<close>

definition route_lockDevice :: "string \<Rightarrow> credential \<Rightarrow> string \<Rightarrow> string option \<Rightarrow> date \<Rightarrow> world \<Rightarrow> response \<times> world" where
  "route_lockDevice path cred deviceId reasonOpt now w =
     verifyToken path cred
       (\<lambda>user. authorize [Shopowner, Superadmin] (Some user)
          (validateObjectId deviceId
             (logActivity (lockDevice deviceId reasonOpt user now)))) w"

definition route_getUsers :: "(string \<Rightarrow> string \<Rightarrow> bool) \<Rightarrow> (string \<Rightarrow> bool \<Rightarrow> User list \<Rightarrow> User list) \<Rightarrow>
    string \<Rightarrow> credential \<Rightarrow> UsersQuery \<Rightarrow> world \<Rightarrow> response \<times> world" where
  "route_getUsers rx srt path cred q w =
     verifyToken path cred
       (\<lambda>user. validatePagination q (logActivity (getUsers rx srt q user))) w"

section \<open>Example data\<close>

text \<open>
  A store with two shops. Shop \<open>s1\<close> has five customers, two of them inactive and one with
  a locked device mirror; \<open>u1\<close> owes 1000 and has paid nothing yet. Device \<open>d1\<close> is
  unlocked and \<open>d2\<close> is locked. \<open>a1\<close> is the super-administrator.
\<close>

definition ex_user :: "oid \<Rightarrow> role \<Rightarrow> oid option \<Rightarrow> bool \<Rightarrow> bool \<Rightarrow> int \<Rightarrow> int \<Rightarrow> User" where
  "ex_user i r sh active locked paid remaining =
     \<lparr>u_id = i, u_name = ''name-'' @ i, u_phone = ''+9198765'', u_email = None,
      u_role = r, u_shop = sh, u_deviceId = None, u_imeiNumber = None,
      emiDetails = \<lparr>totalAmount = 1000, paidAmount = paid, remainingAmount = remaining,
                    monthlyEmi = 100, dueDate = None, nextDueDate = None,
                    emi_status = ''active''\<rparr>,
      deviceStatus = \<lparr>ds_isLocked = locked, lastLockedAt = None, lastUnlockedAt = None,
                      ds_lockReason = None\<rparr>,
      u_isActive = active\<rparr>"

definition ex_device :: "oid \<Rightarrow> oid \<Rightarrow> oid \<Rightarrow> string \<Rightarrow> string \<Rightarrow> bool \<Rightarrow> Device" where
  "ex_device i uid sid did imei locked =
     \<lparr>d_id = i, d_user = uid, d_shop = sid, d_deviceId = did, d_imeiNumber = imei,
      lockStatus = \<lparr>ls_isLocked = locked, lockedAt = None, unlockedAt = None,
                    ls_lockReason = Some ''emi_default'', lockedBy = None\<rparr>,
      connectionStatus = \<lparr>isOnline = False, lastSeen = None, lastHeartbeat = None,
                          connectionType = ''offline''\<rparr>,
      d_isActive = True\<rparr>"

definition ex_shop :: "oid \<Rightarrow> Shop" where
  "ex_shop i =
     \<lparr>s_id = i, s_name = ''shop-'' @ i,
      statistics = \<lparr>totalUsers = 7, activeUsers = 7, lockedDevices = 7, totalRevenue = 7\<rparr>,
      s_isActive = True\<rparr>"

definition ex_u1 :: User where
  "ex_u1 = ex_user ''u1'' UserRole (Some ''s1'') True False 0 0"

definition ex_a1 :: User where
  "ex_a1 = ex_user ''a1'' Superadmin None True False 0 0"

definition ex_world :: world where
  "ex_world =
     \<lparr>devices = [ex_device ''d1'' ''u1'' ''s1'' ''DEV1'' ''111111111111111'' False,
                 ex_device ''d2'' ''u2'' ''s1'' ''DEV2'' ''222222222222222'' True],
      users = [ex_u1,
               ex_user ''u2'' UserRole (Some ''s1'') True True 200 800,
               ex_user ''u3'' UserRole (Some ''s1'') True False 300 700,
               ex_user ''u4'' UserRole (Some ''s1'') False False 400 600,
               ex_user ''u5'' UserRole (Some ''s1'') False False 500 500,
               ex_a1],
      shops = [ex_shop ''s1'', ex_shop ''s2''],
      statsRuns = []\<rparr>"

definition ex_world_noDevices :: world where
  "ex_world_noDevices = ex_world\<lparr>devices := []\<rparr>"

definition ex_admin :: CurrentUser where
  "ex_admin = \<lparr>cu_doc = ex_a1, cu_shop = None\<rparr>"

definition ex_query :: UsersQuery where
  "ex_query = \<lparr>q_page = 1, q_limit = 20, q_search = [], q_role = [], q_status = [],
               q_sortBy = ''createdAt'', q_sortOrder = ''desc''\<rparr>"

definition ex_regex :: "string \<Rightarrow> string \<Rightarrow> bool" where
  "ex_regex pat s = (pat = s)"

definition ex_sort :: "string \<Rightarrow> bool \<Rightarrow> User list \<Rightarrow> User list" where
  "ex_sort field desc xs = xs"

definition Device_findById :: "oid \<Rightarrow> world \<Rightarrow> Device option" where
  "Device_findById i w = find (\<lambda>d. d_id d = i) (devices w)"

section \<open>Basic facts about the store\<close>

lemma orZero_id: "orZero x = x"
  by (simp add: orZero_def)

lemma find_replace_same:
  "key a = k \<Longrightarrow>
   find (\<lambda>x. key x = k) (map (\<lambda>x. if key x = k then a else x) xs) =
     (case find (\<lambda>x. key x = k) xs of None \<Rightarrow> None | Some y \<Rightarrow> Some a)"
  by (induction xs) auto

lemma find_replace_other:
  "key a = k \<Longrightarrow> k' \<noteq> k \<Longrightarrow>
   find (\<lambda>x. key x = k') (map (\<lambda>x. if key x = k then a else x) xs) = find (\<lambda>x. key x = k') xs"
  by (induction xs) auto

lemma preSaveRemaining_id: "u_id (preSaveRemaining u) = u_id u"
  by (simp add: preSaveRemaining_def)

lemma preSaveRemaining_deviceStatus: "deviceStatus (preSaveRemaining u) = deviceStatus u"
  by (simp add: preSaveRemaining_def)

lemma updateStatistics_users: "users (updateStatistics this w) = users w"
  by (simp add: updateStatistics_def Shop_save_def Let_def split: list.splits)

lemma updateStatistics_devices: "devices (updateStatistics this w) = devices w"
  by (simp add: updateStatistics_def Shop_save_def Let_def split: list.splits)

lemma updateStatistics_statsRuns: "statsRuns (updateStatistics this w) = statsRuns w @ [s_id this]"
  by (simp add: updateStatistics_def Shop_save_def Let_def split: list.splits)

lemma Shop_findById_Shop_save:
  "s_id s = i \<Longrightarrow> Shop_findById i w = Some y \<Longrightarrow> Shop_findById i (Shop_save s w) = Some s"
  unfolding Shop_findById_def Shop_save_def
  using find_replace_same [of s_id s i "shops w"] by simp

lemma Shop_findById_statsRuns [simp]:
  "Shop_findById i (w\<lparr>statsRuns := r\<rparr>) = Shop_findById i w"
  by (simp add: Shop_findById_def)

section \<open>The remaining amount of a saved user (C4)\<close>

text \<open>What the pre-save hook does: it recomputes when both amounts are non-zero, and
  leaves the document alone otherwise.\<close>

lemma preSaveRemaining_computes:
  "totalAmount (emiDetails u) \<noteq> 0 \<Longrightarrow> paidAmount (emiDetails u) \<noteq> 0 \<Longrightarrow>
   remainingAmount (emiDetails (preSaveRemaining u)) =
     totalAmount (emiDetails u) - paidAmount (emiDetails u)"
  by (simp add: preSaveRemaining_def truthy_def)

lemma preSaveRemaining_skips:
  "totalAmount (emiDetails u) = 0 \<or> paidAmount (emiDetails u) = 0 \<Longrightarrow> preSaveRemaining u = u"
  by (auto simp add: preSaveRemaining_def truthy_def)

text \<open>
  C4. The claim: after every save, \<^verbatim>\<open>remainingAmount = totalAmount - paidAmount\<close>, also when
  an amount is zero. The code at the input \<open>u1\<close> (total 1000, paid 0, remaining 0): the
  guard of the hook is falsy, the hook does nothing, and the saved user still has
  \<^verbatim>\<open>remainingAmount = 0\<close> where the claim asks for 1000.
\<close>

theorem C4_remainingAmount_stale_when_paid_is_zero:
  "totalAmount (emiDetails ex_u1) = 1000 \<and> paidAmount (emiDetails ex_u1) = 0 \<and>
   map_option (remainingAmount \<circ> emiDetails) (User_findById ''u1'' (User_save ex_u1 ex_world)) = Some 0"
  by code_simp

section \<open>Shop statistics (C7, C10)\<close>

text \<open>
  C7. For a shop whose user set has 5 users, 2 of them with \<^verbatim>\<open>isActive = false\<close> and 1 with
  \<^verbatim>\<open>deviceStatus.isLocked = true\<close>, \<^verbatim>\<open>updateStatistics\<close> persists the snapshot
  \<^verbatim>\<open>{totalUsers: 5, activeUsers: 3, lockedDevices: 1, totalRevenue: sum of paidAmount}\<close>.
\<close>

theorem C7_recompute_scenario:
  assumes stored: "Shop_findById (s_id this) w = Some s0"
    and five: "length (filter (\<lambda>u. u_shop u = Some (s_id this)) (users w)) = 5"
    and inactive: "length (filter (\<lambda>u. \<not> u_isActive u)
                      (filter (\<lambda>u. u_shop u = Some (s_id this)) (users w))) = 2"
    and locked: "length (filter (\<lambda>u. ds_isLocked (deviceStatus u))
                      (filter (\<lambda>u. u_shop u = Some (s_id this)) (users w))) = 1"
  shows "map_option statistics (Shop_findById (s_id this) (updateStatistics this w)) =
           Some \<lparr>totalUsers = 5, activeUsers = 3, lockedDevices = 1,
                 totalRevenue = sum_list (map (\<lambda>u. paidAmount (emiDetails u))
                                  (filter (\<lambda>u. u_shop u = Some (s_id this)) (users w)))\<rparr>"
proof -
  let ?us = "filter (\<lambda>u. u_shop u = Some (s_id this)) (users w)"
  have ne: "?us \<noteq> []" using five by auto
  have "length (filter u_isActive ?us) + length (filter (\<lambda>u. \<not> u_isActive u) ?us) = length ?us"
    by (rule sum_length_filter_compl)
  then have active: "length (filter u_isActive ?us) = 3"
    using five inactive by simp
  have agg: "aggregateStats (s_id this) w =
      [\<lparr>totalUsers = 5, activeUsers = 3, lockedDevices = 1,
        totalRevenue = sum_list (map (\<lambda>u. paidAmount (emiDetails u)) ?us)\<rparr>]"
    using ne five active locked by (simp add: aggregateStats_def Let_def)
  let ?this' = "this\<lparr>statistics := \<lparr>totalUsers = 5, activeUsers = 3, lockedDevices = 1,
        totalRevenue = sum_list (map (\<lambda>u. paidAmount (emiDetails u)) ?us)\<rparr>\<rparr>"
  have upd: "updateStatistics this w =
      Shop_save ?this' (w\<lparr>statsRuns := statsRuns w @ [s_id this]\<rparr>)"
    by (simp add: updateStatistics_def agg orZero_id)
  have "Shop_findById (s_id this)
          (Shop_save ?this' (w\<lparr>statsRuns := statsRuns w @ [s_id this]\<rparr>)) = Some ?this'"
    by (rule Shop_findById_Shop_save [where y = s0]) (simp_all add: stored)
  then show ?thesis by (simp add: upd)
qed

theorem C7_recompute_scenario_witness:
  "Shop_findById ''s1'' ex_world = Some (ex_shop ''s1'') \<and>
   map_option statistics (Shop_findById ''s1'' (updateStatistics (ex_shop ''s1'') ex_world)) =
     Some \<lparr>totalUsers = 5, activeUsers = 3, lockedDevices = 1, totalRevenue = 1400\<rparr>"
proof -
  have id: "s_id (ex_shop ''s1'') = ''s1''" by (simp add: ex_shop_def)
  have us: "filter (\<lambda>u. u_shop u = Some ''s1'') (users ex_world) =
      [ex_u1,
       ex_user ''u2'' UserRole (Some ''s1'') True True 200 800,
       ex_user ''u3'' UserRole (Some ''s1'') True False 300 700,
       ex_user ''u4'' UserRole (Some ''s1'') False False 400 600,
       ex_user ''u5'' UserRole (Some ''s1'') False False 500 500]"
    by (simp add: ex_world_def ex_user_def ex_u1_def ex_a1_def)
  have a: "Shop_findById (s_id (ex_shop ''s1'')) ex_world = Some (ex_shop ''s1'')"
    by (simp add: Shop_findById_def ex_world_def ex_shop_def)
  have b: "length (filter (\<lambda>u. u_shop u = Some (s_id (ex_shop ''s1''))) (users ex_world)) = 5"
    by (simp add: id us)
  have c: "length (filter (\<lambda>u. \<not> u_isActive u)
             (filter (\<lambda>u. u_shop u = Some (s_id (ex_shop ''s1''))) (users ex_world))) = 2"
    by (simp add: id us) (simp add: ex_user_def ex_u1_def)
  have d: "length (filter (\<lambda>u. ds_isLocked (deviceStatus u))
             (filter (\<lambda>u. u_shop u = Some (s_id (ex_shop ''s1''))) (users ex_world))) = 1"
    by (simp add: id us) (simp add: ex_user_def ex_u1_def)
  have e: "sum_list (map (\<lambda>u. paidAmount (emiDetails u))
             (filter (\<lambda>u. u_shop u = Some ''s1'') (users ex_world))) = 1400"
    by (simp add: us) (simp add: ex_user_def ex_u1_def)
  show ?thesis
    using C7_recompute_scenario [OF a b c d] a by (simp add: id e)
qed

text \<open>
  C10. When \<^verbatim>\<open>updateStatistics\<close> runs for a shop that has no users, the aggregation returns
  no group, the assignment is skipped, and the stored shops (with the statistics snapshot
  of this shop) are exactly what they were: nothing is reset to zero.
\<close>

theorem C10_zero_users_keeps_snapshot:
  assumes "filter (\<lambda>u. u_shop u = Some (s_id this)) (users w) = []"
  shows "shops (updateStatistics this w) = shops w \<and>
         Shop_findById (s_id this) (updateStatistics this w) = Shop_findById (s_id this) w"
  using assms by (simp add: updateStatistics_def aggregateStats_def Shop_findById_def)

theorem C10_zero_users_keeps_snapshot_witness:
  "filter (\<lambda>u. u_shop u = Some (s_id (ex_shop ''s2''))) (users ex_world) = [] \<and>
   map_option statistics (Shop_findById ''s2'' (updateStatistics (ex_shop ''s2'') ex_world)) =
     Some \<lparr>totalUsers = 7, activeUsers = 7, lockedDevices = 7, totalRevenue = 7\<rparr>"
proof -
  have h: "filter (\<lambda>u. u_shop u = Some (s_id (ex_shop ''s2''))) (users ex_world) = []"
    by (simp add: ex_world_def ex_shop_def ex_user_def ex_u1_def ex_a1_def)
  have "Shop_findById ''s2'' ex_world = Some (ex_shop ''s2'')"
    by (simp add: Shop_findById_def ex_world_def ex_shop_def)
  with C10_zero_users_keeps_snapshot [OF h] h show ?thesis
    by (simp add: ex_shop_def)
qed

section \<open>Access control at the routes (C3, C9)\<close>

lemma verifyToken_user_denied:
  assumes "User_findById userId w = Some user" "u_isActive user" "u_role user = UserRole"
    and "\<not> startsWith path ''/api/mobile''"
  shows "verifyToken path (ValidToken userId) next w =
           (fail 403 ''Web platform access restricted to admin users only'', w)"
  using assms by (simp add: verifyToken_def)

text \<open>Were the controller reached, its filter for a caller of role user would admit the
  caller's own record only.\<close>

lemma usersFilter_self_only:
  "usersFilter rx q (\<lambda>u. u_id u = i) owner u \<Longrightarrow> u_id u = i"
  by (simp add: usersFilter_def)

text \<open>
  C3, as claimed: an authenticated, active caller of role user may list users and gets
  exactly the own record. The code at the caller \<open>u1\<close> on the list route: \<^verbatim>\<open>verifyToken\<close>
  answers 403 before the controller runs.
\<close>

theorem C3_user_list_allowed_counterexample:
  "route_getUsers ex_regex ex_sort ''/'' (ValidToken ''u1'') ex_query ex_world =
     (fail 403 ''Web platform access restricted to admin users only'', ex_world)"
  by code_simp

text \<open>
  C3, as the code has it: for every authenticated, active caller of role user the
  list-users route is denied with 403 by \<^verbatim>\<open>verifyToken\<close> (web platform access is restricted
  to the admin roles), whatever the query, and the store is left as it was. The path is
  \<^verbatim>\<open>req.path\<close> of the list route, relative to the router or in full.
\<close>

theorem C3_user_list_denied:
  assumes "User_findById userId w = Some user" "u_isActive user" "u_role user = UserRole"
    and "path \<in> set [''/'', ''/api/users'', ''/api/users/'']"
  shows "route_getUsers rx srt path (ValidToken userId) q w =
           (fail 403 ''Web platform access restricted to admin users only'', w)"
proof -
  have "\<not> startsWith path ''/api/mobile''"
    using assms(4) by (auto simp add: startsWith_def)
  then show ?thesis
    unfolding route_getUsers_def using assms(1-3) by (rule verifyToken_user_denied[rotated 3])
qed

theorem C3_user_list_denied_witness:
  "User_findById ''u1'' ex_world = Some ex_u1 \<and> u_isActive ex_u1 \<and> u_role ex_u1 = UserRole \<and>
   status (fst (route_getUsers ex_regex ex_sort ''/'' (ValidToken ''u1'') ex_query ex_world)) = 403"
proof -
  have a: "User_findById ''u1'' ex_world = Some ex_u1"
    by (simp add: User_findById_def ex_world_def ex_u1_def ex_user_def)
  have b: "u_isActive ex_u1" and c: "u_role ex_u1 = UserRole"
    by (simp_all add: ex_u1_def ex_user_def)
  have d: "''/'' \<in> set [''/'', ''/api/users'', ''/api/users/'']" by simp
  show ?thesis
    using C3_user_list_denied [OF a b c d, of ex_regex ex_sort ex_query] a b c
    by (simp add: fail_def respond_def)
qed

text \<open>The paths of the lock route never start with \<^verbatim>\<open>/api/mobile\<close>: a route parameter
  holds no slash.\<close>

lemma segment_lock_not_mobile:
  assumes "CHR ''/'' \<notin> set d"
  shows "\<not> startsWith (''/'' @ d @ ''/lock'') ''/api/mobile''"
proof (cases d)
  case Nil
  then show ?thesis by (simp add: startsWith_def)
next
  case (Cons a d1)
  note c1 = this
  show ?thesis
  proof (cases d1)
    case Nil
    with c1 show ?thesis by (simp add: startsWith_def)
  next
    case (Cons b d2)
    note c2 = this
    show ?thesis
    proof (cases d2)
      case Nil
      with c1 c2 show ?thesis by (simp add: startsWith_def)
    next
      case (Cons c d3)
      note c3 = this
      show ?thesis
      proof (cases d3)
        case Nil
        with c1 c2 c3 show ?thesis by (simp add: startsWith_def)
      next
        case (Cons e d4)
        with c1 c2 c3 assms show ?thesis by (auto simp add: startsWith_def)
      qed
    qed
  qed
qed

lemma lock_path_not_mobile:
  assumes "path = ''/'' @ deviceId @ ''/lock'' \<or> path = ''/api/devices/'' @ deviceId @ ''/lock''"
    and "CHR ''/'' \<notin> set deviceId"
  shows "\<not> startsWith path ''/api/mobile''"
  using assms(1)
proof
  assume "path = ''/'' @ deviceId @ ''/lock''"
  then show ?thesis using segment_lock_not_mobile [OF assms(2)] by simp
next
  assume "path = ''/api/devices/'' @ deviceId @ ''/lock''"
  then show ?thesis by (simp add: startsWith_def)
qed

text \<open>
  C9. For every authenticated caller of role user and every device id, the lock route
  answers 403 and leaves the store as it was; the response is the same in any two stores
  in which the caller is such a user, so it does not depend on whether the device exists.
  The controller by itself also answers 403 for such a caller before it queries the
  device.
\<close>

theorem C9_user_lock_denied:
  assumes caller: "User_findById userId w = Some user" "u_isActive user" "u_role user = UserRole"
    and caller': "User_findById userId w' = Some user'" "u_isActive user'" "u_role user' = UserRole"
    and path: "path = ''/'' @ deviceId @ ''/lock'' \<or> path = ''/api/devices/'' @ deviceId @ ''/lock''"
    and seg: "CHR ''/'' \<notin> set deviceId"
  shows "route_lockDevice path (ValidToken userId) deviceId reasonOpt now w =
           (fail 403 ''Web platform access restricted to admin users only'', w) \<and>
         fst (route_lockDevice path (ValidToken userId) deviceId reasonOpt now w) =
         fst (route_lockDevice path (ValidToken userId) deviceId reasonOpt now w') \<and>
         lockDevice deviceId reasonOpt \<lparr>cu_doc = user, cu_shop = populateShop user w\<rparr> now w =
           (fail 403 ''Access denied. Users cannot lock devices.'', w)"
proof -
  have np: "\<not> startsWith path ''/api/mobile''"
    using path seg by (rule lock_path_not_mobile)
  have r: "route_lockDevice path (ValidToken userId) deviceId reasonOpt now w =
           (fail 403 ''Web platform access restricted to admin users only'', w)"
    unfolding route_lockDevice_def using caller np by (rule verifyToken_user_denied)
  have r': "route_lockDevice path (ValidToken userId) deviceId reasonOpt now w' =
           (fail 403 ''Web platform access restricted to admin users only'', w')"
    unfolding route_lockDevice_def using caller' np by (rule verifyToken_user_denied)
  have c: "lockDevice deviceId reasonOpt \<lparr>cu_doc = user, cu_shop = populateShop user w\<rparr> now w =
           (fail 403 ''Access denied. Users cannot lock devices.'', w)"
    using caller(3) by (simp add: lockDevice_def)
  show ?thesis using r r' c by simp
qed

theorem C9_user_lock_denied_witness:
  "Device_findById ''d1'' ex_world \<noteq> None \<and> Device_findById ''d1'' ex_world_noDevices = None \<and>
   route_lockDevice ''/d1/lock'' (ValidToken ''u1'') ''d1'' None 5 ex_world =
     (fail 403 ''Web platform access restricted to admin users only'', ex_world) \<and>
   fst (route_lockDevice ''/d1/lock'' (ValidToken ''u1'') ''d1'' None 5 ex_world) =
   fst (route_lockDevice ''/d1/lock'' (ValidToken ''u1'') ''d1'' None 5 ex_world_noDevices)"
proof -
  have a: "User_findById ''u1'' ex_world = Some ex_u1"
    by (simp add: User_findById_def ex_world_def ex_u1_def ex_user_def)
  have a': "User_findById ''u1'' ex_world_noDevices = Some ex_u1"
    by (simp add: User_findById_def ex_world_noDevices_def ex_world_def ex_u1_def ex_user_def)
  have b: "u_isActive ex_u1" and c: "u_role ex_u1 = UserRole"
    by (simp_all add: ex_u1_def ex_user_def)
  have p: "''/d1/lock'' = ''/'' @ ''d1'' @ ''/lock'' \<or> ''/d1/lock'' = ''/api/devices/'' @ ''d1'' @ ''/lock''"
    by simp
  have q: "CHR ''/'' \<notin> set ''d1''" by simp
  have d: "Device_findById ''d1'' ex_world \<noteq> None"
    by (simp add: Device_findById_def ex_world_def ex_device_def)
  have e: "Device_findById ''d1'' ex_world_noDevices = None"
    by (simp add: Device_findById_def ex_world_noDevices_def)
  note t = C9_user_lock_denied [OF a b c a' b c p q, of None 5]
  from t have r: "route_lockDevice ''/d1/lock'' (ValidToken ''u1'') ''d1'' None 5 ex_world =
     (fail 403 ''Web platform access restricted to admin users only'', ex_world)"
    by (rule conjunct1)
  from t have eq: "fst (route_lockDevice ''/d1/lock'' (ValidToken ''u1'') ''d1'' None 5 ex_world) =
     fst (route_lockDevice ''/d1/lock'' (ValidToken ''u1'') ''d1'' None 5 ex_world_noDevices)"
    by (rule conjunct1 [OF conjunct2])
  show ?thesis using r eq d e by blast
qed

section \<open>Bulk lock of a locked and an unlocked device (C5)\<close>

lemma bulk_lock_explicit_reason_example:
  "fst (bulkLockDevices [''d1'', ''d2''] (Some ''manual_lock'') ex_admin 10 ex_world) =
     respond 200 True (BulkLockCompleted 1 1)
       (BulkData \<lparr>successful = [\<lparr>r_deviceId = ''d1'', r_deviceName = ''DEV1'', r_userName = ''name-u1''\<rparr>],
                  failed = [\<lparr>f_deviceId = ''d2'', f_deviceName = ''DEV2'',
                             f_reason = Literal ''Already locked''\<rparr>]\<rparr>)"
  by code_simp

lemma Device_lockDevice_valid:
  "reason \<in> set lockReasonEnum \<Longrightarrow> \<exists>doc w1. Device_lockDevice this reason by now w = Inr (doc, w1)"
  by (auto simp add: Device_lockDevice_def Device_save_def Device_validate_def lockReasonEnum_def Let_def)

lemma Device_lockDevice_invalid:
  "reason \<noteq> [] \<Longrightarrow> reason \<notin> set lockReasonEnum \<Longrightarrow>
   Device_lockDevice this reason by now w = Inl (ValidationError ''lockStatus.lockReason'' reason)"
  by (simp add: Device_lockDevice_def Device_save_def Device_validate_def Let_def)

lemma bulkLockEach_pair_valid_reason:
  assumes "reason \<in> set lockReasonEnum"
    and "ls_isLocked (lockStatus (pd_doc a))" "\<not> ls_isLocked (lockStatus (pd_doc b))"
    and "pd_user b = Some u"
    and "devs = [a, b] \<or> devs = [b, a]"
  shows "\<exists>ok bad. successful (fst (bulkLockEach devs reason by now \<lparr>successful = [], failed = []\<rparr> w)) = [ok]
          \<and> failed (fst (bulkLockEach devs reason by now \<lparr>successful = [], failed = []\<rparr> w)) = [bad]
          \<and> f_reason bad = Literal ''Already locked'' \<and> f_deviceId bad = d_id (pd_doc a)
          \<and> r_deviceId ok = d_id (pd_doc b)"
proof -
  obtain doc w1 where l: "Device_lockDevice (pd_doc b) reason by now w = Inr (doc, w1)"
    using Device_lockDevice_valid [OF assms(1)] by blast
  from assms(5) show ?thesis
    using assms(2-4) l by (auto simp add: pushFailed_def pushSuccessful_def)
qed

lemma bulkLockEach_pair_default_reason:
  assumes "ls_isLocked (lockStatus (pd_doc a))" "\<not> ls_isLocked (lockStatus (pd_doc b))"
    and "devs = [a, b] \<or> devs = [b, a]"
  shows "successful (fst (bulkLockEach devs ''bulk_operation'' by now \<lparr>successful = [], failed = []\<rparr> w)) = []
       \<and> length (failed (fst (bulkLockEach devs ''bulk_operation'' by now \<lparr>successful = [], failed = []\<rparr> w))) = 2"
proof -
  have l: "Device_lockDevice (pd_doc b) ''bulk_operation'' by now w
             = Inl (ValidationError ''lockStatus.lockReason'' ''bulk_operation'')"
    by (rule Device_lockDevice_invalid) (simp_all add: lockReasonEnum_def)
  from assms(3) show ?thesis
    using assms(1,2) l by (auto simp add: pushFailed_def pushSuccessful_def)
qed


section \<open>Registering a duplicate device (C8)\<close>

lemma find_not_None: "x \<in> set xs \<Longrightarrow> P x \<Longrightarrow> find P xs \<noteq> None"
  by (auto simp add: find_None_iff)

text \<open>
  C8. Registering a device whose \<^verbatim>\<open>deviceId\<close> or \<^verbatim>\<open>imeiNumber\<close> matches an existing device
  fails and leaves the whole store (devices, users, shops) as it was; when the target
  user exists and the caller passes the access check of the handler, the failure is the
  400 duplicate conflict.
\<close>

theorem C8_register_duplicate:
  assumes "existing \<in> set (devices w)"
    and "d_deviceId existing = deviceId \<or> d_imeiNumber existing = imeiNumber"
  shows "snd (registerDevice userId deviceId imeiNumber currentUser newId now w) = w \<and>
         success (fst (registerDevice userId deviceId imeiNumber currentUser newId now w)) = False \<and>
         (\<forall>user. User_findById userId w = Some user \<and>
                 registerAccess user (populateShop user w) userId currentUser = Inr None \<longrightarrow>
            fst (registerDevice userId deviceId imeiNumber currentUser newId now w) =
              fail 400 ''Device with this ID or IMEI already exists'')"
proof -
  have "Device_findOne (\<lambda>d. d_deviceId d = deviceId \<or> d_imeiNumber d = imeiNumber) w \<noteq> None"
    unfolding Device_findOne_def using assms by (rule find_not_None)
  then obtain e where e: "Device_findOne (\<lambda>d. d_deviceId d = deviceId \<or> d_imeiNumber d = imeiNumber) w = Some e"
    by blast
  show ?thesis
    by (auto simp add: registerDevice_def e Let_def fail_def respond_def registerAccess_def
        split: option.splits sum.splits if_splits)
qed

theorem C8_register_duplicate_witness:
  "ex_device ''d1'' ''u1'' ''s1'' ''DEV1'' ''111111111111111'' False \<in> set (devices ex_world) \<and>
   registerDevice ''u1'' ''DEV1'' ''333333333333333'' ex_admin ''d3'' 5 ex_world =
     (fail 400 ''Device with this ID or IMEI already exists'', ex_world)"
proof -
  have a: "ex_device ''d1'' ''u1'' ''s1'' ''DEV1'' ''111111111111111'' False \<in> set (devices ex_world)"
    by (simp add: ex_world_def)
  have b: "d_deviceId (ex_device ''d1'' ''u1'' ''s1'' ''DEV1'' ''111111111111111'' False) = ''DEV1''
           \<or> d_imeiNumber (ex_device ''d1'' ''u1'' ''s1'' ''DEV1'' ''111111111111111'' False) = ''333333333333333''"
    by (simp add: ex_device_def)
  have u: "User_findById ''u1'' ex_world = Some ex_u1"
    by (simp add: User_findById_def ex_world_def ex_u1_def ex_user_def)
  have acc: "registerAccess ex_u1 (populateShop ex_u1 ex_world) ''u1'' ex_admin = Inr None"
    by (simp add: registerAccess_def ex_admin_def ex_a1_def ex_user_def)
  from C8_register_duplicate [OF a b, of "''u1''" ex_admin "''d3''" 5] u acc a
  show ?thesis by (metis prod.collapse)
qed



section \<open>The lock engine: single lock and unlock (C1, C2)\<close>

lemma find_Some_key: "find (\<lambda>x. key x = k) xs = Some y \<Longrightarrow> key y = k"
  by (auto simp add: find_Some_iff)

lemma find_Some_holds: "find P xs = Some y \<Longrightarrow> P y \<and> y \<in> set xs"
  by (auto simp add: find_Some_iff)

lemma find_filter_replace:
  assumes "find flt xs = Some d" and "\<And>x. flt x \<Longrightarrow> key x = key a" and "flt a"
  shows "find flt (map (\<lambda>x. if key x = key a then a else x) xs) = Some a"
  using assms(1)
proof (induction xs)
  case Nil
  then show ?case by simp
next
  case (Cons x xs)
  show ?case
  proof (cases "key x = key a")
    case True
    then show ?thesis using assms(3) by simp
  next
    case False
    then have "\<not> flt x" using assms(2) by blast
    with Cons False show ?thesis by simp
  qed
qed

lemma User_save_devices [simp]: "devices (User_save u w) = devices w"
  by (simp add: User_save_def Let_def)

lemma User_save_shops [simp]: "shops (User_save u w) = shops w"
  by (simp add: User_save_def Let_def)

lemma User_save_statsRuns [simp]: "statsRuns (User_save u w) = statsRuns w"
  by (simp add: User_save_def Let_def)

lemma User_findById_User_save:
  assumes "User_findById i w = Some y" "u_id u = i"
  shows "User_findById i (User_save u w) = Some (preSaveRemaining u)"
proof -
  have "u_id (preSaveRemaining u) = i" using assms(2) by (simp add: preSaveRemaining_id)
  from find_replace_same [of u_id "preSaveRemaining u" i "users w", OF this] assms
  show ?thesis by (simp add: User_findById_def User_save_def Let_def preSaveRemaining_id)
qed

lemma User_findById_devices_upd [simp]: "User_findById i (w\<lparr>devices := ds\<rparr>) = User_findById i w"
  by (simp add: User_findById_def)

lemma User_findById_updateStatistics [simp]:
  "User_findById i (updateStatistics this w) = User_findById i w"
  by (simp add: User_findById_def updateStatistics_users)

lemma Shop_findById_devices_upd [simp]: "Shop_findById i (w\<lparr>devices := ds\<rparr>) = Shop_findById i w"
  by (simp add: Shop_findById_def)

lemma Shop_findById_User_save [simp]: "Shop_findById i (User_save u w) = Shop_findById i w"
  by (simp add: Shop_findById_def)

lemma Device_findOne_User_save [simp]: "Device_findOne flt (User_save u w) = Device_findOne flt w"
  by (simp add: Device_findOne_def)

lemma Device_findOne_updateStatistics [simp]:
  "Device_findOne flt (updateStatistics this w) = Device_findOne flt w"
  by (simp add: Device_findOne_def updateStatistics_devices)

lemma Device_findById_User_save [simp]: "Device_findById i (User_save u w) = Device_findById i w"
  by (simp add: Device_findById_def)

lemma Device_findById_updateStatistics [simp]:
  "Device_findById i (updateStatistics this w) = Device_findById i w"
  by (simp add: Device_findById_def updateStatistics_devices)

lemma Shop_findById_updateStatistics:
  assumes "Shop_findById i w = Some y"
  shows "\<exists>s. Shop_findById i (updateStatistics this w) = Some s"
proof (cases "aggregateStats (s_id this) w")
  case Nil
  then show ?thesis using assms by (simp add: updateStatistics_def)
next
  case (Cons st rest)
  let ?w = "w\<lparr>statsRuns := statsRuns w @ [s_id this]\<rparr>"
  let ?new = "this\<lparr>statistics :=
        \<lparr>totalUsers = orZero (totalUsers st), activeUsers = orZero (activeUsers st),
         lockedDevices = orZero (lockedDevices st), totalRevenue = orZero (totalRevenue st)\<rparr>\<rparr>"
  have upd: "updateStatistics this w = Shop_save ?new ?w"
    by (simp add: updateStatistics_def Cons)
  show ?thesis
  proof (cases "i = s_id this")
    case True
    have "Shop_findById i (Shop_save ?new ?w) = Some ?new"
      by (rule Shop_findById_Shop_save [where y = y]) (use True assms in simp_all)
    then show ?thesis by (simp add: upd)
  next
    case False
    have "Shop_findById i (Shop_save ?new ?w) = Shop_findById i w"
      unfolding Shop_findById_def Shop_save_def
      using find_replace_other [of s_id ?new "s_id this" i "shops w"] False by simp
    then show ?thesis using assms by (simp add: upd)
  qed
qed

text \<open>The two properties of the filters that the lock engine relies on.\<close>

lemma filterById_id: "filterById deviceId sh x \<Longrightarrow> d_id x = deviceId"
  by (simp add: filterById_def)

lemma filterById_dep:
  "d_id x = d_id y \<Longrightarrow> d_shop x = d_shop y \<Longrightarrow> filterById deviceId sh x = filterById deviceId sh y"
  by (cases sh) (simp_all add: filterById_def)

text \<open>A device saved under its id is what both queries return afterwards.\<close>

lemma Device_found_after_save:
  assumes f: "Device_findOne (filterById deviceId sh) w = Some d"
    and same: "d_id doc = d_id d" "d_shop doc = d_shop d"
  shows "Device_findOne (filterById deviceId sh)
           (w\<lparr>devices := map (\<lambda>x. if d_id x = d_id doc then doc else x) (devices w)\<rparr>) = Some doc"
    and "Device_findById deviceId
           (w\<lparr>devices := map (\<lambda>x. if d_id x = d_id doc then doc else x) (devices w)\<rparr>) = Some doc"
proof -
  from f have fd: "filterById deviceId sh d" and din: "d \<in> set (devices w)"
    using find_Some_holds [of "filterById deviceId sh" "devices w" d] by (simp_all add: Device_findOne_def)
  have idd: "d_id d = deviceId" using fd by (rule filterById_id)
  have fdoc: "filterById deviceId sh doc"
    using fd filterById_dep [OF same, of deviceId sh] by simp
  have "find (filterById deviceId sh) (map (\<lambda>x. if d_id x = d_id doc then doc else x) (devices w)) = Some doc"
  proof (rule find_filter_replace [where d = d])
    show "find (filterById deviceId sh) (devices w) = Some d"
      using f by (simp add: Device_findOne_def)
    show "\<And>x. filterById deviceId sh x \<Longrightarrow> d_id x = d_id doc"
      using same idd by (simp add: filterById_def)
    show "filterById deviceId sh doc" by (rule fdoc)
  qed
  then show "Device_findOne (filterById deviceId sh)
           (w\<lparr>devices := map (\<lambda>x. if d_id x = d_id doc then doc else x) (devices w)\<rparr>) = Some doc"
    by (simp add: Device_findOne_def)
  have "find (\<lambda>x. d_id x = deviceId) (devices w) \<noteq> None"
    using din idd by (auto simp add: find_None_iff)
  then obtain y where y: "find (\<lambda>x. d_id x = deviceId) (devices w) = Some y" by blast
  have k: "d_id doc = deviceId" using same idd by simp
  from find_replace_same [of d_id doc deviceId "devices w", OF k] y
  show "Device_findById deviceId
           (w\<lparr>devices := map (\<lambda>x. if d_id x = d_id doc then doc else x) (devices w)\<rparr>) = Some doc"
    by (simp add: Device_findById_def k)
qed


lemma Device_lockDevice_Inr:
  assumes "Device_lockDevice this reason by now w = Inr (doc, w1)"
  shows "doc = this\<lparr>lockStatus := (lockStatus this)
                 \<lparr>ls_isLocked := True, lockedAt := Some now,
                  ls_lockReason := Some (if reason = [] then ''emi_default'' else reason),
                  lockedBy := Some by\<rparr>\<rparr>"
    and "w1 = w\<lparr>devices := map (\<lambda>x. if d_id x = d_id doc then doc else x) (devices w)\<rparr>"
    and "Device_validate doc = None"
  using assms
  by (auto simp add: Device_lockDevice_def Device_save_def Let_def split: option.splits)

lemma Device_unlockDevice_valid:
  assumes "Device_validate d = None"
    and "doc = d\<lparr>lockStatus := (lockStatus d)\<lparr>ls_isLocked := False, unlockedAt := Some now\<rparr>\<rparr>"
  shows "Device_unlockDevice d now w =
           Inr (doc, w\<lparr>devices := map (\<lambda>x. if d_id x = d_id doc then doc else x) (devices w)\<rparr>)"
proof -
  have "Device_validate doc = None"
    using assms by (simp add: Device_validate_def)
  then show ?thesis
    using assms(2) by (simp add: Device_unlockDevice_def Device_save_def Let_def)
qed

lemma Device_unlockDevice_Inr:
  assumes "Device_unlockDevice d now w = Inr (doc, w1)"
  shows "Device_validate d = None"
  using assms
  by (auto simp add: Device_unlockDevice_def Device_save_def Device_validate_def Let_def
      split: option.splits if_splits)

text \<open>A successful lock: the state it starts from and the state it leaves.\<close>

lemma lockFound_success:
  assumes run: "lockFound (filterById deviceId sh) reason cu now w = (r, w')"
    and ok: "status r = 200"
  shows "\<exists>d u s. Device_findOne (filterById deviceId sh) w' = Some d \<and>
           Device_findById deviceId w' = Some d \<and>
           ls_isLocked (lockStatus d) \<and>
           ls_lockReason (lockStatus d) = Some (if reason = [] then ''emi_default'' else reason) \<and>
           Device_validate d = None \<and>
           User_findById (d_user d) w' = Some u \<and> ds_isLocked (deviceStatus u) \<and>
           Shop_findById (d_shop d) w' = Some s"
proof -
  let ?flt = "filterById deviceId sh"
  from run ok obtain d doc w1 user0 shop where
    f: "Device_findOne ?flt w = Some d"
    and l: "Device_lockDevice d reason (u_id (cu_doc cu)) now w = Inr (doc, w1)"
    and u: "User_findById (d_user d) w = Some user0"
    and s: "Shop_findById (d_shop d) w = Some shop"
    and w': "w' = updateStatistics shop
                   (User_save (user0\<lparr>deviceStatus := (deviceStatus user0)
                      \<lparr>ds_isLocked := True, lastLockedAt := Some now,
                       ds_lockReason := Some reason\<rparr>\<rparr>) w1)"
    by (auto simp add: lockFound_def populateUserShop_def Let_def fail_def respond_def
        split: option.splits sum.splits if_splits prod.splits)
  let ?user = "user0\<lparr>deviceStatus := (deviceStatus user0)
                      \<lparr>ds_isLocked := True, lastLockedAt := Some now,
                       ds_lockReason := Some reason\<rparr>\<rparr>"
  note L = Device_lockDevice_Inr [OF l]
  have same: "d_id doc = d_id d" "d_shop doc = d_shop d" "d_user doc = d_user d"
    by (simp_all add: L(1))
  note F = Device_found_after_save [OF f same(1,2)]
  have d1: "Device_findOne ?flt w' = Some doc" by (simp add: w' L(2) F(1))
  have d2: "Device_findById deviceId w' = Some doc" by (simp add: w' L(2) F(2))
  have uid: "u_id ?user = d_user d"
    using find_Some_key [of u_id "d_user d" "users w" user0] u by (simp add: User_findById_def)
  have "User_findById (d_user d) w1 = Some user0" by (simp add: L(2) u)
  then have "User_findById (d_user d) (User_save ?user w1) = Some (preSaveRemaining ?user)"
    using uid by (rule User_findById_User_save)
  then have u': "User_findById (d_user doc) w' = Some (preSaveRemaining ?user)"
    by (simp add: w' same)
  have "Shop_findById (d_shop d) (User_save ?user w1) = Some shop" by (simp add: L(2) s)
  then obtain s' where s': "Shop_findById (d_shop doc) w' = Some s'"
    unfolding w' same using Shop_findById_updateStatistics by blast
  show ?thesis
    using d1 d2 u' s' L(3) by (auto simp add: L(1) preSaveRemaining_deviceStatus)
qed

text \<open>An unlock of a locked device that the filter finds, whose user and shop exist.\<close>

lemma unlockFound_run:
  assumes f: "Device_findOne (filterById deviceId sh) w = Some d"
    and lk: "ls_isLocked (lockStatus d)"
    and v: "Device_validate d = None"
    and u: "User_findById (d_user d) w = Some user0"
    and s: "Shop_findById (d_shop d) w = Some shop"
  shows "\<exists>r w' u'. unlockFound (filterById deviceId sh) now w = (r, w') \<and> status r = 200 \<and>
           Device_findOne (filterById deviceId sh) w' =
             Some (d\<lparr>lockStatus := (lockStatus d)\<lparr>ls_isLocked := False, unlockedAt := Some now\<rparr>\<rparr>) \<and>
           Device_findById deviceId w' =
             Some (d\<lparr>lockStatus := (lockStatus d)\<lparr>ls_isLocked := False, unlockedAt := Some now\<rparr>\<rparr>) \<and>
           User_findById (d_user d) w' = Some u' \<and>
           deviceStatus u' = (deviceStatus user0)\<lparr>ds_isLocked := False, lastUnlockedAt := Some now,
                                ds_lockReason := None\<rparr>"
proof -
  let ?flt = "filterById deviceId sh"
  let ?doc = "d\<lparr>lockStatus := (lockStatus d)\<lparr>ls_isLocked := False, unlockedAt := Some now\<rparr>\<rparr>"
  let ?w1 = "w\<lparr>devices := map (\<lambda>x. if d_id x = d_id ?doc then ?doc else x) (devices w)\<rparr>"
  let ?user = "user0\<lparr>deviceStatus := (deviceStatus user0)
                      \<lparr>ds_isLocked := False, lastUnlockedAt := Some now,
                       ds_lockReason := None\<rparr>\<rparr>"
  let ?w' = "updateStatistics shop (User_save ?user ?w1)"
  have un: "Device_unlockDevice d now w = Inr (?doc, ?w1)"
    using v by (rule Device_unlockDevice_valid) simp
  have run: "unlockFound ?flt now w =
      (respond 200 True (Text ''Device unlocked successfully'')
         (DeviceData (unlockResponseDevice ?doc ?user shop)), ?w')"
    using f lk u s by (simp add: unlockFound_def populateUserShop_def un Let_def)
  have same: "d_id ?doc = d_id d" "d_shop ?doc = d_shop d" by simp_all
  note F = Device_found_after_save [OF f same]
  have d1: "Device_findOne ?flt ?w' = Some ?doc" using F(1) by simp
  have d2: "Device_findById deviceId ?w' = Some ?doc" using F(2) by simp
  have uid: "u_id ?user = d_user d"
    using find_Some_key [of u_id "d_user d" "users w" user0] u by (simp add: User_findById_def)
  have "User_findById (d_user d) ?w1 = Some user0" by (simp add: u)
  then have "User_findById (d_user d) (User_save ?user ?w1) = Some (preSaveRemaining ?user)"
    using uid by (rule User_findById_User_save)
  then have u': "User_findById (d_user d) ?w' = Some (preSaveRemaining ?user)"
    by simp
  show ?thesis
    using run d1 d2 u' by (simp add: respond_def preSaveRemaining_deviceStatus)
qed

lemma unlockFound_success:
  assumes run: "unlockFound (filterById deviceId sh) now w = (r, w')"
    and ok: "status r = 200"
  shows "\<exists>d u. Device_findById deviceId w' = Some d \<and> \<not> ls_isLocked (lockStatus d) \<and>
           User_findById (d_user d) w' = Some u \<and> \<not> ds_isLocked (deviceStatus u)"
proof -
  from run ok obtain d doc w1 user0 shop where
    f: "Device_findOne (filterById deviceId sh) w = Some d"
    and lk: "ls_isLocked (lockStatus d)"
    and l: "Device_unlockDevice d now w = Inr (doc, w1)"
    and u: "User_findById (d_user d) w = Some user0"
    and s: "Shop_findById (d_shop d) w = Some shop"
    by (auto simp add: unlockFound_def populateUserShop_def Let_def fail_def respond_def
        split: option.splits sum.splits if_splits prod.splits)
  have v: "Device_validate d = None" using l by (rule Device_unlockDevice_Inr)
  from unlockFound_run [OF f lk v u s, of now] run
  show ?thesis by auto
qed

lemma unlockFound_not_locked:
  assumes "Device_findOne flt w = Some d" "\<not> ls_isLocked (lockStatus d)"
  shows "unlockFound flt now w = (fail 400 ''Device is not locked'', w)"
  using assms by (simp add: unlockFound_def populateUserShop_def Let_def)


text \<open>The filter a caller's role selects: no shop key for the super-administrator, the
  caller's shop for a shop owner.\<close>

lemma lockDevice_success:
  assumes "lockDevice deviceId reasonOpt cu now w = (r, w')" and "status r = 200"
  shows "\<exists>sh. ((u_role (cu_doc cu) = Superadmin \<and> sh = None) \<or>
               (u_role (cu_doc cu) = Shopowner \<and> (\<exists>cs. cu_shop cu = Some cs \<and> sh = Some (s_id cs)))) \<and>
              lockFound (filterById deviceId sh)
                (case reasonOpt of None \<Rightarrow> ''emi_default'' | Some x \<Rightarrow> x) cu now w = (r, w')"
  using assms
  by (cases "u_role (cu_doc cu)")
     (auto simp add: lockDevice_def fail_def respond_def split: option.splits)

lemma unlockDevice_scoped:
  assumes "(u_role (cu_doc cu) = Superadmin \<and> sh = None) \<or>
           (u_role (cu_doc cu) = Shopowner \<and> (\<exists>cs. cu_shop cu = Some cs \<and> sh = Some (s_id cs)))"
  shows "unlockDevice deviceId cu now w = unlockFound (filterById deviceId sh) now w"
  using assms by (auto simp add: unlockDevice_def)

lemma unlockDevice_success:
  assumes "unlockDevice deviceId cu now w = (r, w')" and "status r = 200"
  shows "\<exists>sh. unlockFound (filterById deviceId sh) now w = (r, w')"
  using assms
  by (cases "u_role (cu_doc cu)")
     (auto simp add: unlockDevice_def fail_def respond_def split: option.splits)

text \<open>
  C1. For every device on which a single lock or unlock completes successfully (status
  200), the device stored under the id afterwards and its owning user, as stored
  afterwards, agree on \<^verbatim>\<open>isLocked\<close>: \<^verbatim>\<open>Device.lockStatus.isLocked\<close> equals
  \<^verbatim>\<open>User.deviceStatus.isLocked\<close>.
\<close>

theorem C1_lock_unlock_mirror:
  assumes "lockDevice deviceId reasonOpt cu now w = (r, w') \<or>
           unlockDevice deviceId cu now w = (r, w')"
    and "status r = 200"
  shows "\<exists>d u. Device_findById deviceId w' = Some d \<and> User_findById (d_user d) w' = Some u \<and>
               ls_isLocked (lockStatus d) = ds_isLocked (deviceStatus u)"
  using assms(1)
proof
  assume "lockDevice deviceId reasonOpt cu now w = (r, w')"
  then obtain sh where
    "lockFound (filterById deviceId sh)
       (case reasonOpt of None \<Rightarrow> ''emi_default'' | Some x \<Rightarrow> x) cu now w = (r, w')"
    using lockDevice_success assms(2) by blast
  from lockFound_success [OF this assms(2)] show ?thesis by auto
next
  assume "unlockDevice deviceId cu now w = (r, w')"
  then obtain sh where "unlockFound (filterById deviceId sh) now w = (r, w')"
    using unlockDevice_success assms(2) by blast
  from unlockFound_success [OF this assms(2)] show ?thesis by auto
qed

theorem C1_lock_unlock_mirror_witness:
  "status (fst (lockDevice ''d1'' None ex_admin 10 ex_world)) = 200 \<and>
   (\<exists>d u. Device_findById ''d1'' (snd (lockDevice ''d1'' None ex_admin 10 ex_world)) = Some d \<and>
          User_findById (d_user d) (snd (lockDevice ''d1'' None ex_admin 10 ex_world)) = Some u \<and>
          ls_isLocked (lockStatus d) = ds_isLocked (deviceStatus u))"
proof -
  have ok: "status (fst (lockDevice ''d1'' None ex_admin 10 ex_world)) = 200"
    by code_simp
  have run: "lockDevice ''d1'' None ex_admin 10 ex_world =
               (fst (lockDevice ''d1'' None ex_admin 10 ex_world),
                snd (lockDevice ''d1'' None ex_admin 10 ex_world)) \<or>
             unlockDevice ''d1'' ex_admin 10 ex_world =
               (fst (lockDevice ''d1'' None ex_admin 10 ex_world),
                snd (lockDevice ''d1'' None ex_admin 10 ex_world))"
    by simp
  from C1_lock_unlock_mirror [OF run ok] ok show ?thesis by blast
qed

text \<open>
  C2, as claimed: lock followed by unlock leaves the device with \<^verbatim>\<open>lockReason = null\<close>. The
  code at device \<open>d1\<close>, locked and then unlocked by the super-administrator: both calls
  succeed and the device still carries the reason of the lock, \<^verbatim>\<open>'emi_default'\<close>;
  \<^verbatim>\<open>unlockDevice\<close> of the model assigns \<^verbatim>\<open>isLocked\<close> and \<^verbatim>\<open>unlockedAt\<close> only.
\<close>

theorem C2_lockReason_kept_counterexample:
  "status (fst (lockDevice ''d1'' None ex_admin 10 ex_world)) = 200 \<and>
   status (fst (unlockDevice ''d1'' ex_admin 20 (snd (lockDevice ''d1'' None ex_admin 10 ex_world)))) = 200 \<and>
   map_option (ls_lockReason \<circ> lockStatus)
     (Device_findById ''d1''
        (snd (unlockDevice ''d1'' ex_admin 20 (snd (lockDevice ''d1'' None ex_admin 10 ex_world)))))
     = Some (Some ''emi_default'')"
  by code_simp

text \<open>
  C2, as the code has it. First part: when a lock succeeds, an unlock of the same device
  by the same caller right after it succeeds and leaves the device with
  \<^verbatim>\<open>isLocked = false\<close>, \<^verbatim>\<open>unlockedAt\<close> set to the time of the unlock and \<^verbatim>\<open>lockReason\<close> still
  the reason the lock stored (the request's reason, \<^verbatim>\<open>'emi_default'\<close> when absent or empty);
  it is the user mirror whose \<^verbatim>\<open>lockReason\<close> becomes \<^verbatim>\<open>null\<close>; and one more unlock fails
  with 400 "Device is not locked", changing nothing. Second part: for every unlocked
  device that the caller's filter finds, unlock fails with 400 "Device is not locked" and
  leaves the store as it was.
\<close>

theorem C2_lock_then_unlock:
  "(lockDevice deviceId reasonOpt cu t1 w = (r1, w1) \<and> status r1 = 200 \<longrightarrow>
      (\<exists>r2 w2 d u. unlockDevice deviceId cu t2 w1 = (r2, w2) \<and> status r2 = 200 \<and>
         Device_findById deviceId w2 = Some d \<and>
         \<not> ls_isLocked (lockStatus d) \<and> unlockedAt (lockStatus d) = Some t2 \<and>
         ls_lockReason (lockStatus d) =
           Some (case reasonOpt of None \<Rightarrow> ''emi_default''
                 | Some x \<Rightarrow> if x = [] then ''emi_default'' else x) \<and>
         User_findById (d_user d) w2 = Some u \<and>
         \<not> ds_isLocked (deviceStatus u) \<and> lastUnlockedAt (deviceStatus u) = Some t2 \<and>
         ds_lockReason (deviceStatus u) = None \<and>
         unlockDevice deviceId cu t3 w2 = (fail 400 ''Device is not locked'', w2)))
   \<and>
   (((u_role (cu_doc cu) = Superadmin \<and> sh = None) \<or>
     (u_role (cu_doc cu) = Shopowner \<and> (\<exists>cs. cu_shop cu = Some cs \<and> sh = Some (s_id cs)))) \<and>
    Device_findOne (filterById deviceId sh) w = Some d0 \<and> \<not> ls_isLocked (lockStatus d0) \<longrightarrow>
      unlockDevice deviceId cu t2 w = (fail 400 ''Device is not locked'', w))"
proof (intro conjI impI)
  assume a: "lockDevice deviceId reasonOpt cu t1 w = (r1, w1) \<and> status r1 = 200"
  let ?reason = "case reasonOpt of None \<Rightarrow> ''emi_default'' | Some x \<Rightarrow> x"
  from a obtain sh' where
    sc: "(u_role (cu_doc cu) = Superadmin \<and> sh' = None) \<or>
         (u_role (cu_doc cu) = Shopowner \<and> (\<exists>cs. cu_shop cu = Some cs \<and> sh' = Some (s_id cs)))"
    and lf: "lockFound (filterById deviceId sh') ?reason cu t1 w = (r1, w1)"
    using lockDevice_success by blast
  from a have ok: "status r1 = 200" by simp
  from lockFound_success [OF lf ok] obtain d u s where
    f: "Device_findOne (filterById deviceId sh') w1 = Some d"
    and lk: "ls_isLocked (lockStatus d)"
    and lr: "ls_lockReason (lockStatus d) = Some (if ?reason = [] then ''emi_default'' else ?reason)"
    and v: "Device_validate d = None"
    and u: "User_findById (d_user d) w1 = Some u"
    and s: "Shop_findById (d_shop d) w1 = Some s"
    by blast
  let ?doc = "d\<lparr>lockStatus := (lockStatus d)\<lparr>ls_isLocked := False, unlockedAt := Some t2\<rparr>\<rparr>"
  from unlockFound_run [OF f lk v u s, of t2] obtain r2 w2 u' where
    run2: "unlockFound (filterById deviceId sh') t2 w1 = (r2, w2)" and ok2: "status r2 = 200"
    and f2: "Device_findOne (filterById deviceId sh') w2 = Some ?doc"
    and g2: "Device_findById deviceId w2 = Some ?doc"
    and u2: "User_findById (d_user d) w2 = Some u'"
    and ds2: "deviceStatus u' = (deviceStatus u)\<lparr>ds_isLocked := False, lastUnlockedAt := Some t2,
                                ds_lockReason := None\<rparr>"
    by blast
  have third: "unlockDevice deviceId cu t3 w2 = (fail 400 ''Device is not locked'', w2)"
    unfolding unlockDevice_scoped [OF sc]
    by (rule unlockFound_not_locked [OF f2]) simp
  have reason: "(if ?reason = [] then ''emi_default'' else ?reason) =
      (case reasonOpt of None \<Rightarrow> ''emi_default'' | Some x \<Rightarrow> if x = [] then ''emi_default'' else x)"
    by (cases reasonOpt) simp_all
  show "\<exists>r2 w2 d u. unlockDevice deviceId cu t2 w1 = (r2, w2) \<and> status r2 = 200 \<and>
         Device_findById deviceId w2 = Some d \<and>
         \<not> ls_isLocked (lockStatus d) \<and> unlockedAt (lockStatus d) = Some t2 \<and>
         ls_lockReason (lockStatus d) =
           Some (case reasonOpt of None \<Rightarrow> ''emi_default''
                 | Some x \<Rightarrow> if x = [] then ''emi_default'' else x) \<and>
         User_findById (d_user d) w2 = Some u \<and>
         \<not> ds_isLocked (deviceStatus u) \<and> lastUnlockedAt (deviceStatus u) = Some t2 \<and>
         ds_lockReason (deviceStatus u) = None \<and>
         unlockDevice deviceId cu t3 w2 = (fail 400 ''Device is not locked'', w2)"
    apply (rule exI [where x = r2], rule exI [where x = w2])
    apply (rule exI [where x = ?doc], rule exI [where x = u'])
    using run2 ok2 g2 u2 third lr
    by (simp add: unlockDevice_scoped [OF sc] ds2 reason)
next
  assume b: "((u_role (cu_doc cu) = Superadmin \<and> sh = None) \<or>
     (u_role (cu_doc cu) = Shopowner \<and> (\<exists>cs. cu_shop cu = Some cs \<and> sh = Some (s_id cs)))) \<and>
    Device_findOne (filterById deviceId sh) w = Some d0 \<and> \<not> ls_isLocked (lockStatus d0)"
  then have sc: "(u_role (cu_doc cu) = Superadmin \<and> sh = None) \<or>
     (u_role (cu_doc cu) = Shopowner \<and> (\<exists>cs. cu_shop cu = Some cs \<and> sh = Some (s_id cs)))"
    by blast
  show "unlockDevice deviceId cu t2 w = (fail 400 ''Device is not locked'', w)"
    unfolding unlockDevice_scoped [OF sc]
    using b by (intro unlockFound_not_locked) auto
qed


theorem C2_lock_then_unlock_witness:
  "status (fst (lockDevice ''d1'' None ex_admin 10 ex_world)) = 200 \<and>
   (\<exists>r2 w2 d u. unlockDevice ''d1'' ex_admin 20 (snd (lockDevice ''d1'' None ex_admin 10 ex_world)) = (r2, w2) \<and>
      status r2 = 200 \<and> Device_findById ''d1'' w2 = Some d \<and>
      \<not> ls_isLocked (lockStatus d) \<and> unlockedAt (lockStatus d) = Some 20 \<and>
      ls_lockReason (lockStatus d) = Some ''emi_default'' \<and>
      User_findById (d_user d) w2 = Some u \<and> ds_lockReason (deviceStatus u) = None \<and>
      unlockDevice ''d1'' ex_admin 30 w2 = (fail 400 ''Device is not locked'', w2)) \<and>
   \<not> ls_isLocked (lockStatus (ex_device ''d1'' ''u1'' ''s1'' ''DEV1'' ''111111111111111'' False)) \<and>
   unlockDevice ''d1'' ex_admin 20 ex_world = (fail 400 ''Device is not locked'', ex_world)"
proof -
  let ?d1 = "ex_device ''d1'' ''u1'' ''s1'' ''DEV1'' ''111111111111111'' False"
  have ok: "status (fst (lockDevice ''d1'' None ex_admin 10 ex_world)) = 200"
    by code_simp
  have run: "lockDevice ''d1'' None ex_admin 10 ex_world =
               (fst (lockDevice ''d1'' None ex_admin 10 ex_world),
                snd (lockDevice ''d1'' None ex_admin 10 ex_world))"
    by simp
  have role: "u_role (cu_doc ex_admin) = Superadmin"
    by (simp add: ex_admin_def ex_a1_def ex_user_def)
  have f: "Device_findOne (filterById ''d1'' None) ex_world = Some ?d1"
    by (simp add: Device_findOne_def filterById_def ex_world_def ex_device_def)
  have nl: "\<not> ls_isLocked (lockStatus ?d1)"
    by (simp add: ex_device_def)
  note t = C2_lock_then_unlock [of "''d1''" None ex_admin 10 ex_world
      "fst (lockDevice ''d1'' None ex_admin 10 ex_world)"
      "snd (lockDevice ''d1'' None ex_admin 10 ex_world)" 20 30 None ?d1]
  from t run ok have first:
    "\<exists>r2 w2 d u. unlockDevice ''d1'' ex_admin 20 (snd (lockDevice ''d1'' None ex_admin 10 ex_world)) = (r2, w2) \<and>
      status r2 = 200 \<and> Device_findById ''d1'' w2 = Some d \<and>
      \<not> ls_isLocked (lockStatus d) \<and> unlockedAt (lockStatus d) = Some 20 \<and>
      ls_lockReason (lockStatus d) = Some ''emi_default'' \<and>
      User_findById (d_user d) w2 = Some u \<and> ds_lockReason (deviceStatus u) = None \<and>
      unlockDevice ''d1'' ex_admin 30 w2 = (fail 400 ''Device is not locked'', w2)"
    by simp blast
  from t role f nl have second:
    "unlockDevice ''d1'' ex_admin 20 ex_world = (fail 400 ''Device is not locked'', ex_world)"
    by blast
  show ?thesis using ok first nl second by blast
qed


section \<open>Bulk operations recompute statistics once per shop (C6)\<close>

lemma newSet_aux:
  "distinct acc \<Longrightarrow>
   distinct (foldl (\<lambda>acc x. if x \<in> set acc then acc else acc @ [x]) acc xs) \<and>
   set (foldl (\<lambda>acc x. if x \<in> set acc then acc else acc @ [x]) acc xs) = set acc \<union> set xs"
  by (induction xs arbitrary: acc) auto

lemma distinct_newSet: "distinct (newSet xs)"
  using newSet_aux [of "[]" xs] by (simp add: newSet_def)

lemma set_newSet: "set (newSet xs) = set xs"
  using newSet_aux [of "[]" xs] by (simp add: newSet_def)

lemma Device_lockDevice_frame:
  "Device_lockDevice this reason by now w = Inr (doc, w1) \<Longrightarrow>
   shops w1 = shops w \<and> statsRuns w1 = statsRuns w"
  by (auto simp add: Device_lockDevice_def Device_save_def Let_def split: option.splits)

lemma Device_unlockDevice_frame:
  "Device_unlockDevice this now w = Inr (doc, w1) \<Longrightarrow>
   shops w1 = shops w \<and> statsRuns w1 = statsRuns w"
  by (auto simp add: Device_unlockDevice_def Device_save_def Let_def split: option.splits)

lemma bulkLockEach_frame:
  "bulkLockEach devs reason by now results w = (results', w') \<Longrightarrow>
   shops w' = shops w \<and> statsRuns w' = statsRuns w"
proof (induction devs arbitrary: results w)
  case Nil
  then show ?case by simp
next
  case (Cons device rest)
  then show ?case
    by (auto simp add: Let_def split: if_splits sum.splits option.splits
        dest!: Device_lockDevice_frame)
qed

lemma bulkUnlockEach_frame:
  "bulkUnlockEach devs now results w = (results', w') \<Longrightarrow>
   shops w' = shops w \<and> statsRuns w' = statsRuns w"
proof (induction devs arbitrary: results w)
  case Nil
  then show ?case by simp
next
  case (Cons device rest)
  then show ?case
    by (auto simp add: Let_def split: if_splits sum.splits option.splits
        dest!: Device_unlockDevice_frame)
qed

lemma Shop_findById_id: "Shop_findById i w = Some s \<Longrightarrow> s_id s = i"
  using find_Some_key [of s_id i "shops w" s] by (simp add: Shop_findById_def)

lemma shopIdsOf_populated:
  "shopIdsOf (map (\<lambda>d. populateUserShop d w) ds) = Inr ids \<Longrightarrow>
   ids = map d_shop ds \<and> (\<forall>i \<in> set ids. Shop_findById i w \<noteq> None)"
proof (induction ds arbitrary: ids)
  case Nil
  then show ?case by simp
next
  case (Cons d ds)
  from Cons.prems obtain shop rest where
    sh: "Shop_findById (d_shop d) w = Some shop"
    and rest: "shopIdsOf (map (\<lambda>d. populateUserShop d w) ds) = Inr rest"
    and ids: "ids = s_id shop # rest"
    by (auto simp add: populateUserShop_def split: option.splits sum.splits)
  have "s_id shop = d_shop d" using sh by (rule Shop_findById_id)
  with Cons.IH [OF rest] sh ids show ?case by simp
qed

lemma updateShops_runs:
  "(\<forall>i \<in> set ids. Shop_findById i w \<noteq> None) \<Longrightarrow>
   statsRuns (updateShops ids w) = statsRuns w @ ids"
proof (induction ids arbitrary: w)
  case Nil
  then show ?case by simp
next
  case (Cons shopId rest)
  then obtain shop where sh: "Shop_findById shopId w = Some shop" by auto
  then have sid: "s_id shop = shopId"
    using find_Some_key [of s_id shopId "shops w" shop] by (simp add: Shop_findById_def)
  have "\<forall>i \<in> set rest. Shop_findById i (updateStatistics shop w) \<noteq> None"
  proof
    fix i assume "i \<in> set rest"
    then obtain y where "Shop_findById i w = Some y" using Cons.prems by auto
    from Shop_findById_updateStatistics [OF this]
    show "Shop_findById i (updateStatistics shop w) \<noteq> None" by auto
  qed
  from Cons.IH [OF this] show ?case
    by (simp add: sh updateStatistics_statsRuns sid)
qed

lemma Shop_findById_cong: "shops w1 = shops w \<Longrightarrow> Shop_findById i w1 = Shop_findById i w"
  by (simp add: Shop_findById_def)

lemma Shop_findById_updateStatistics_other:
  assumes "i \<noteq> s_id this"
  shows "Shop_findById i (updateStatistics this w) = Shop_findById i w"
proof (cases "aggregateStats (s_id this) w")
  case Nil
  then show ?thesis by (simp add: updateStatistics_def)
next
  case (Cons st rest)
  let ?new = "this\<lparr>statistics :=
        \<lparr>totalUsers = orZero (totalUsers st), activeUsers = orZero (activeUsers st),
         lockedDevices = orZero (lockedDevices st), totalRevenue = orZero (totalRevenue st)\<rparr>\<rparr>"
  have "find (\<lambda>x. s_id x = i) (map (\<lambda>x. if s_id x = s_id this then ?new else x) (shops w)) =
        find (\<lambda>x. s_id x = i) (shops w)"
    by (rule find_replace_other) (use assms in simp_all)
  then show ?thesis
    by (simp add: updateStatistics_def Cons Shop_save_def Shop_findById_def)
qed

lemma updateStatistics_without_users:
  assumes "filter (\<lambda>u. u_shop u = Some (s_id this)) (users w) = []"
  shows "Shop_findById i (updateStatistics this w) = Shop_findById i w"
  using assms by (simp add: updateStatistics_def aggregateStats_def Shop_findById_def)

lemma updateStatistics_with_users:
  assumes found: "Shop_findById (s_id this) w = Some y"
    and ne: "filter (\<lambda>u. u_shop u = Some (s_id this)) (users w) \<noteq> []"
  shows "\<exists>s. Shop_findById (s_id this) (updateStatistics this w) = Some s \<and>
     statistics s =
       \<lparr>totalUsers = length (filter (\<lambda>u. u_shop u = Some (s_id this)) (users w)),
        activeUsers = length (filter u_isActive (filter (\<lambda>u. u_shop u = Some (s_id this)) (users w))),
        lockedDevices = length (filter (\<lambda>u. ds_isLocked (deviceStatus u))
                          (filter (\<lambda>u. u_shop u = Some (s_id this)) (users w))),
        totalRevenue = sum_list (map (\<lambda>u. paidAmount (emiDetails u))
                          (filter (\<lambda>u. u_shop u = Some (s_id this)) (users w)))\<rparr>"
proof -
  let ?us = "filter (\<lambda>u. u_shop u = Some (s_id this)) (users w)"
  let ?st = "\<lparr>totalUsers = length ?us,
        activeUsers = length (filter u_isActive ?us),
        lockedDevices = length (filter (\<lambda>u. ds_isLocked (deviceStatus u)) ?us),
        totalRevenue = sum_list (map (\<lambda>u. paidAmount (emiDetails u)) ?us)\<rparr>"
  let ?new = "this\<lparr>statistics := ?st\<rparr>"
  have agg: "aggregateStats (s_id this) w = [?st]"
    using ne by (simp add: aggregateStats_def Let_def)
  have upd: "updateStatistics this w =
      Shop_save ?new (w\<lparr>statsRuns := statsRuns w @ [s_id this]\<rparr>)"
    by (simp add: updateStatistics_def agg orZero_id)
  have "Shop_findById (s_id this)
          (Shop_save ?new (w\<lparr>statsRuns := statsRuns w @ [s_id this]\<rparr>)) = Some ?new"
    by (rule Shop_findById_Shop_save [where y = y]) (simp_all add: found)
  then show ?thesis by (simp add: upd)
qed

lemma updateShops_users: "users (updateShops ids w) = users w"
  by (induction ids arbitrary: w) (auto simp add: updateStatistics_users split: option.splits)

lemma updateShops_devices: "devices (updateShops ids w) = devices w"
  by (induction ids arbitrary: w) (auto simp add: updateStatistics_devices split: option.splits)

lemma updateShops_other:
  "sid \<notin> set ids \<Longrightarrow> Shop_findById sid (updateShops ids w) = Shop_findById sid w"
proof (induction ids arbitrary: w)
  case Nil
  then show ?case by simp
next
  case (Cons shopId rest)
  show ?case
  proof (cases "Shop_findById shopId w")
    case None
    with Cons show ?thesis by simp
  next
    case (Some shop)
    then have "s_id shop = shopId" by (rule Shop_findById_id)
    with Cons.prems have "sid \<noteq> s_id shop" by auto
    then have "Shop_findById sid (updateStatistics shop w) = Shop_findById sid w"
      by (rule Shop_findById_updateStatistics_other)
    with Cons Some show ?thesis by simp
  qed
qed

text \<open>What the statistics loop leaves for a shop id of its list.\<close>

lemma updateShops_recomputes:
  assumes "distinct ids" and "\<forall>i \<in> set ids. Shop_findById i w \<noteq> None" and "sid \<in> set ids"
  shows "\<exists>s. Shop_findById sid (updateShops ids w) = Some s \<and>
     (if filter (\<lambda>u. u_shop u = Some sid) (users w) = []
      then Shop_findById sid (updateShops ids w) = Shop_findById sid w
      else statistics s =
       \<lparr>totalUsers = length (filter (\<lambda>u. u_shop u = Some sid) (users w)),
        activeUsers = length (filter u_isActive (filter (\<lambda>u. u_shop u = Some sid) (users w))),
        lockedDevices = length (filter (\<lambda>u. ds_isLocked (deviceStatus u))
                          (filter (\<lambda>u. u_shop u = Some sid) (users w))),
        totalRevenue = sum_list (map (\<lambda>u. paidAmount (emiDetails u))
                          (filter (\<lambda>u. u_shop u = Some sid) (users w)))\<rparr>)"
  using assms
proof (induction ids arbitrary: w)
  case Nil
  then show ?case by simp
next
  case (Cons shopId rest)
  then obtain shop where sh: "Shop_findById shopId w = Some shop" by auto
  then have sid': "s_id shop = shopId" by (rule Shop_findById_id)
  let ?w1 = "updateStatistics shop w"
  have step: "updateShops (shopId # rest) w = updateShops rest ?w1" by (simp add: sh)
  have u1: "users ?w1 = users w" by (rule updateStatistics_users)
  show ?case
  proof (cases "sid = shopId")
    case True
    with Cons.prems(1) have "sid \<notin> set rest" by simp
    then have rest: "Shop_findById sid (updateShops rest ?w1) = Shop_findById sid ?w1"
      by (rule updateShops_other)
    show ?thesis
    proof (cases "filter (\<lambda>u. u_shop u = Some sid) (users w) = []")
      case e: True
      then have "filter (\<lambda>u. u_shop u = Some (s_id shop)) (users w) = []"
        using True sid' by simp
      then have "Shop_findById sid ?w1 = Shop_findById sid w"
        by (rule updateStatistics_without_users)
      with rest sh True e show ?thesis unfolding step by simp
    next
      case ne: False
      have f: "Shop_findById (s_id shop) w = Some shop" using sh sid' by simp
      have n: "filter (\<lambda>u. u_shop u = Some (s_id shop)) (users w) \<noteq> []"
        using ne True sid' by simp
      from updateStatistics_with_users [OF f n] rest ne True sid' show ?thesis
        unfolding step by simp
    qed
  next
    case False
    with Cons.prems(3) have mem: "sid \<in> set rest" by simp
    have d: "distinct rest" using Cons.prems(1) by simp
    have all: "\<forall>i \<in> set rest. Shop_findById i ?w1 \<noteq> None"
    proof
      fix i assume "i \<in> set rest"
      then obtain y where "Shop_findById i w = Some y" using Cons.prems(2) by auto
      from Shop_findById_updateStatistics [OF this]
      show "Shop_findById i ?w1 \<noteq> None" by auto
    qed
    have o: "Shop_findById sid ?w1 = Shop_findById sid w"
      by (rule Shop_findById_updateStatistics_other) (use False sid' in simp)
    show ?thesis
      unfolding step by (rule Cons.IH [OF d all mem, unfolded u1 o])
  qed
qed


text \<open>The end of both bulk handlers: the statistics loop over the distinct shop ids of the
  loaded devices, run on the store \<open>w1\<close> that the device loop left.\<close>

lemma bulk_statistics_tail:
  assumes ids: "shopIdsOf (map (\<lambda>d. populateUserShop d w) ds) = Inr ids"
    and fr: "shops w1 = shops w" "statsRuns w1 = statsRuns w"
    and w': "w' = updateShops (newSet ids) w1"
  shows "users w' = users w1 \<and> devices w' = devices w1 \<and>
         statsRuns w' = statsRuns w @ newSet (map d_shop ds) \<and>
         (\<forall>sid \<in> set (newSet (map d_shop ds)). \<exists>s. Shop_findById sid w' = Some s \<and>
            (if filter (\<lambda>u. u_shop u = Some sid) (users w') = []
              then Shop_findById sid w' = Shop_findById sid w
              else statistics s =
                \<lparr>totalUsers = length (filter (\<lambda>u. u_shop u = Some sid) (users w')),
                 activeUsers = length (filter u_isActive
                                 (filter (\<lambda>u. u_shop u = Some sid) (users w'))),
                 lockedDevices = length (filter (\<lambda>u. ds_isLocked (deviceStatus u))
                                   (filter (\<lambda>u. u_shop u = Some sid) (users w'))),
                 totalRevenue = sum_list (map (\<lambda>u. paidAmount (emiDetails u))
                                  (filter (\<lambda>u. u_shop u = Some sid) (users w')))\<rparr>)) \<and>
         (\<forall>sid. sid \<notin> set (newSet (map d_shop ds)) \<longrightarrow> Shop_findById sid w' = Shop_findById sid w)"
proof -
  from shopIdsOf_populated [OF ids] have
    eq: "ids = map d_shop ds" and ex: "\<forall>i \<in> set ids. Shop_findById i w \<noteq> None"
    by simp_all
  have same: "\<And>i. Shop_findById i w1 = Shop_findById i w"
    by (rule Shop_findById_cong [OF fr(1)])
  have all: "\<forall>i \<in> set (newSet ids). Shop_findById i w1 \<noteq> None"
    using ex by (simp add: set_newSet same)
  have u: "users w' = users w1" and d: "devices w' = devices w1"
    by (simp_all add: w' updateShops_users updateShops_devices)
  have runs: "statsRuns w' = statsRuns w @ newSet (map d_shop ds)"
    using updateShops_runs [OF all] by (simp add: w' fr(2) eq)
  have stat: "\<forall>sid \<in> set (newSet (map d_shop ds)). \<exists>s. Shop_findById sid w' = Some s \<and>
            (if filter (\<lambda>u. u_shop u = Some sid) (users w') = []
              then Shop_findById sid w' = Shop_findById sid w
              else statistics s =
                \<lparr>totalUsers = length (filter (\<lambda>u. u_shop u = Some sid) (users w')),
                 activeUsers = length (filter u_isActive
                                 (filter (\<lambda>u. u_shop u = Some sid) (users w'))),
                 lockedDevices = length (filter (\<lambda>u. ds_isLocked (deviceStatus u))
                                   (filter (\<lambda>u. u_shop u = Some sid) (users w'))),
                 totalRevenue = sum_list (map (\<lambda>u. paidAmount (emiDetails u))
                                  (filter (\<lambda>u. u_shop u = Some sid) (users w')))\<rparr>)"
  proof
    fix sid assume "sid \<in> set (newSet (map d_shop ds))"
    then have mem: "sid \<in> set (newSet ids)" by (simp add: eq)
    from updateShops_recomputes [OF distinct_newSet all mem]
    show "\<exists>s. Shop_findById sid w' = Some s \<and>
            (if filter (\<lambda>u. u_shop u = Some sid) (users w') = []
              then Shop_findById sid w' = Shop_findById sid w
              else statistics s =
                \<lparr>totalUsers = length (filter (\<lambda>u. u_shop u = Some sid) (users w')),
                 activeUsers = length (filter u_isActive
                                 (filter (\<lambda>u. u_shop u = Some sid) (users w'))),
                 lockedDevices = length (filter (\<lambda>u. ds_isLocked (deviceStatus u))
                                   (filter (\<lambda>u. u_shop u = Some sid) (users w'))),
                 totalRevenue = sum_list (map (\<lambda>u. paidAmount (emiDetails u))
                                  (filter (\<lambda>u. u_shop u = Some sid) (users w')))\<rparr>)"
      unfolding u unfolding w' same .
  qed
  have other: "\<forall>sid. sid \<notin> set (newSet (map d_shop ds)) \<longrightarrow> Shop_findById sid w' = Shop_findById sid w"
    using updateShops_other [of _ "newSet ids" w1] by (simp add: w' eq same)
  from u d runs stat other show ?thesis by blast
qed

lemma bulkLockDevices_run:
  assumes "bulkLockDevices deviceIds reasonOpt cu now w = (r, w')" and "status r = 200"
  shows "\<exists>sh. ((u_role (cu_doc cu) = Superadmin \<and> sh = None) \<or>
          (u_role (cu_doc cu) = Shopowner \<and> (\<exists>cs. cu_shop cu = Some cs \<and> sh = Some (s_id cs)))) \<and>
              bulkLockFound (filterByIds deviceIds sh)
                (case reasonOpt of None \<Rightarrow> ''bulk_operation'' | Some x \<Rightarrow> x) cu now w = (r, w')"
  using assms
  by (cases "u_role (cu_doc cu)")
     (auto simp add: bulkLockDevices_def Let_def fail_def respond_def split: option.splits if_splits)

lemma bulkUnlockDevices_run:
  assumes "bulkUnlockDevices deviceIds cu now w = (r, w')" and "status r = 200"
  shows "\<exists>sh. ((u_role (cu_doc cu) = Superadmin \<and> sh = None) \<or>
          (u_role (cu_doc cu) = Shopowner \<and> (\<exists>cs. cu_shop cu = Some cs \<and> sh = Some (s_id cs)))) \<and>
              bulkUnlockFound (filterByIds deviceIds sh) now w = (r, w')"
  using assms
  by (cases "u_role (cu_doc cu)")
     (auto simp add: bulkUnlockDevices_def fail_def respond_def split: option.splits if_splits)

text \<open>When a bulk request completes: a non-empty id list, a caller that is not of role
  user, at least one device in scope, and the shop of every device in scope in the store.\<close>

lemma shopIdsOf_all_found:
  "\<forall>d \<in> set ds. Shop_findById (d_shop d) w \<noteq> None \<Longrightarrow>
   shopIdsOf (map (\<lambda>d. populateUserShop d w) ds) = Inr (map d_shop ds)"
proof (induction ds)
  case Nil
  then show ?case by simp
next
  case (Cons d ds)
  then obtain shop where sh: "Shop_findById (d_shop d) w = Some shop" by auto
  then have "s_id shop = d_shop d" by (rule Shop_findById_id)
  with Cons sh show ?case by (simp add: populateUserShop_def)
qed

lemma bulkLockDevices_completes:
  assumes "((u_role (cu_doc cu) = Superadmin \<and> sh = None) \<or>
          (u_role (cu_doc cu) = Shopowner \<and> (\<exists>cs. cu_shop cu = Some cs \<and> sh = Some (s_id cs))))"
    and "deviceIds \<noteq> []"
    and "Device_find (filterByIds deviceIds sh) w \<noteq> []"
    and "\<forall>d \<in> set (Device_find (filterByIds deviceIds sh) w). Shop_findById (d_shop d) w \<noteq> None"
  shows "status (fst (bulkLockDevices deviceIds reasonOpt cu now w)) = 200"
proof -
  have "status (fst (bulkLockFound (filterByIds deviceIds sh) reason cu now w)) = 200" for reason
    using assms(3) shopIdsOf_all_found [OF assms(4)]
    by (simp add: bulkLockFound_def Let_def respond_def split: prod.splits)
  then show ?thesis
    using assms(1,2) by (auto simp add: bulkLockDevices_def Let_def)
qed

lemma bulkUnlockDevices_completes:
  assumes "((u_role (cu_doc cu) = Superadmin \<and> sh = None) \<or>
          (u_role (cu_doc cu) = Shopowner \<and> (\<exists>cs. cu_shop cu = Some cs \<and> sh = Some (s_id cs))))"
    and "deviceIds \<noteq> []"
    and "Device_find (filterByIds deviceIds sh) w \<noteq> []"
    and "\<forall>d \<in> set (Device_find (filterByIds deviceIds sh) w). Shop_findById (d_shop d) w \<noteq> None"
  shows "status (fst (bulkUnlockDevices deviceIds cu now w)) = 200"
proof -
  have "status (fst (bulkUnlockFound (filterByIds deviceIds sh) now w)) = 200"
    using assms(3) shopIdsOf_all_found [OF assms(4)]
    by (simp add: bulkUnlockFound_def Let_def respond_def split: prod.splits)
  then show ?thesis
    using assms(1,2) by (auto simp add: bulkUnlockDevices_def)
qed

lemma distinct_singleton_list: "distinct xs \<Longrightarrow> set xs = {x} \<Longrightarrow> xs = [x]"
proof (cases xs)
  case Nil
  assume "set xs = {x}"
  with Nil show ?thesis by simp
next
  case (Cons a ys)
  assume d: "distinct xs" and e: "set xs = {x}"
  from e Cons have a: "a = x" by auto
  have "ys = []"
  proof (cases ys)
    case Nil
    then show ?thesis .
  next
    case (Cons b zs)
    with \<open>xs = a # ys\<close> e have "b = x" by auto
    with a d \<open>xs = a # ys\<close> Cons show ?thesis by simp
  qed
  with a Cons show ?thesis by simp
qed

text \<open>
  C6. After a bulk lock or a bulk unlock that completes (status 200), with \<open>w1\<close> the store
  the device loop left: the users and devices of the final store are those of \<open>w1\<close>; the
  runs of \<^verbatim>\<open>updateStatistics\<close> that the request added are a duplicate-free list whose
  elements are exactly the shop ids of the devices the request processed (the devices its
  filter finds), so there is one recomputation per distinct shop and not one per device;
  every such shop is stored afterwards with the snapshot counted from the users of the
  final store, that is, after the writes of the batch (\<^verbatim>\<open>totalUsers\<close>, \<^verbatim>\<open>activeUsers\<close>,
  \<^verbatim>\<open>lockedDevices\<close>, \<^verbatim>\<open>totalRevenue\<close>), or is left as it was when it has no user; and every
  other shop is left as it was. Last part: both requests do complete for a caller of an
  admin role, a non-empty id list and at least one device in scope whose shops all exist.
\<close>

theorem C6_bulk_statistics_once_per_shop:
  "(bulkLockDevices deviceIds reasonOpt cu now w = (r, w') \<and> status r = 200 \<longrightarrow>
     (\<exists>sh runs results w1.
         ((u_role (cu_doc cu) = Superadmin \<and> sh = None) \<or>
          (u_role (cu_doc cu) = Shopowner \<and> (\<exists>cs. cu_shop cu = Some cs \<and> sh = Some (s_id cs)))) \<and>
         bulkLockEach (map (\<lambda>d. populateUserShop d w) (Device_find (filterByIds deviceIds sh) w))
           (case reasonOpt of None \<Rightarrow> ''bulk_operation'' | Some x \<Rightarrow> x)
           (u_id (cu_doc cu)) now \<lparr>successful = [], failed = []\<rparr> w = (results, w1) \<and>
         users w' = users w1 \<and> devices w' = devices w1 \<and>
         statsRuns w' = statsRuns w @ runs \<and> distinct runs \<and>
         set runs = d_shop ` set (Device_find (filterByIds deviceIds sh) w) \<and>
         (\<forall>sid \<in> set runs. \<exists>s. Shop_findById sid w' = Some s \<and>
            (if filter (\<lambda>u. u_shop u = Some sid) (users w') = []
              then Shop_findById sid w' = Shop_findById sid w
              else statistics s =
                \<lparr>totalUsers = length (filter (\<lambda>u. u_shop u = Some sid) (users w')),
                 activeUsers = length (filter u_isActive
                                 (filter (\<lambda>u. u_shop u = Some sid) (users w'))),
                 lockedDevices = length (filter (\<lambda>u. ds_isLocked (deviceStatus u))
                                   (filter (\<lambda>u. u_shop u = Some sid) (users w'))),
                 totalRevenue = sum_list (map (\<lambda>u. paidAmount (emiDetails u))
                                  (filter (\<lambda>u. u_shop u = Some sid) (users w')))\<rparr>)) \<and>
         (\<forall>sid. sid \<notin> set runs \<longrightarrow> Shop_findById sid w' = Shop_findById sid w)))
   \<and>
   (bulkUnlockDevices deviceIds cu now w = (r, w') \<and> status r = 200 \<longrightarrow>
     (\<exists>sh runs results w1.
         ((u_role (cu_doc cu) = Superadmin \<and> sh = None) \<or>
          (u_role (cu_doc cu) = Shopowner \<and> (\<exists>cs. cu_shop cu = Some cs \<and> sh = Some (s_id cs)))) \<and>
         bulkUnlockEach (map (\<lambda>d. populateUserShop d w) (Device_find (filterByIds deviceIds sh) w))
           now \<lparr>successful = [], failed = []\<rparr> w = (results, w1) \<and>
         users w' = users w1 \<and> devices w' = devices w1 \<and>
         statsRuns w' = statsRuns w @ runs \<and> distinct runs \<and>
         set runs = d_shop ` set (Device_find (filterByIds deviceIds sh) w) \<and>
         (\<forall>sid \<in> set runs. \<exists>s. Shop_findById sid w' = Some s \<and>
            (if filter (\<lambda>u. u_shop u = Some sid) (users w') = []
              then Shop_findById sid w' = Shop_findById sid w
              else statistics s =
                \<lparr>totalUsers = length (filter (\<lambda>u. u_shop u = Some sid) (users w')),
                 activeUsers = length (filter u_isActive
                                 (filter (\<lambda>u. u_shop u = Some sid) (users w'))),
                 lockedDevices = length (filter (\<lambda>u. ds_isLocked (deviceStatus u))
                                   (filter (\<lambda>u. u_shop u = Some sid) (users w'))),
                 totalRevenue = sum_list (map (\<lambda>u. paidAmount (emiDetails u))
                                  (filter (\<lambda>u. u_shop u = Some sid) (users w')))\<rparr>)) \<and>
         (\<forall>sid. sid \<notin> set runs \<longrightarrow> Shop_findById sid w' = Shop_findById sid w)))
   \<and>
   (((u_role (cu_doc cu) = Superadmin \<and> sh = None) \<or>
          (u_role (cu_doc cu) = Shopowner \<and> (\<exists>cs. cu_shop cu = Some cs \<and> sh = Some (s_id cs)))) \<and>
    deviceIds \<noteq> [] \<and> Device_find (filterByIds deviceIds sh) w \<noteq> [] \<and>
    (\<forall>d \<in> set (Device_find (filterByIds deviceIds sh) w). Shop_findById (d_shop d) w \<noteq> None) \<longrightarrow>
      status (fst (bulkLockDevices deviceIds reasonOpt cu now w)) = 200 \<and>
      status (fst (bulkUnlockDevices deviceIds cu now w)) = 200)"
proof (intro conjI impI)
  assume a: "bulkLockDevices deviceIds reasonOpt cu now w = (r, w') \<and> status r = 200"
  let ?reason = "case reasonOpt of None \<Rightarrow> ''bulk_operation'' | Some x \<Rightarrow> x"
  from a have ok: "status r = 200" by simp
  from a obtain sh where
    sc: "((u_role (cu_doc cu) = Superadmin \<and> sh = None) \<or>
          (u_role (cu_doc cu) = Shopowner \<and> (\<exists>cs. cu_shop cu = Some cs \<and> sh = Some (s_id cs))))"
    and run: "bulkLockFound (filterByIds deviceIds sh) ?reason cu now w = (r, w')"
    using bulkLockDevices_run by blast
  let ?ds = "Device_find (filterByIds deviceIds sh) w"
  let ?devs = "map (\<lambda>d. populateUserShop d w) ?ds"
  from run ok obtain results w1 ids where
    loop: "bulkLockEach ?devs ?reason (u_id (cu_doc cu)) now \<lparr>successful = [], failed = []\<rparr> w = (results, w1)"
    and ids: "shopIdsOf ?devs = Inr ids"
    and w': "w' = updateShops (newSet ids) w1"
    by (auto simp add: bulkLockFound_def Let_def fail_def respond_def
        split: if_splits prod.splits sum.splits)
  from bulkLockEach_frame [OF loop] have fr: "shops w1 = shops w" "statsRuns w1 = statsRuns w"
    by simp_all
  note T = bulk_statistics_tail [OF ids fr w']
  show "\<exists>sh runs results w1.
         ((u_role (cu_doc cu) = Superadmin \<and> sh = None) \<or>
          (u_role (cu_doc cu) = Shopowner \<and> (\<exists>cs. cu_shop cu = Some cs \<and> sh = Some (s_id cs)))) \<and>
         bulkLockEach (map (\<lambda>d. populateUserShop d w) (Device_find (filterByIds deviceIds sh) w))
           (case reasonOpt of None \<Rightarrow> ''bulk_operation'' | Some x \<Rightarrow> x)
           (u_id (cu_doc cu)) now \<lparr>successful = [], failed = []\<rparr> w = (results, w1) \<and>
         users w' = users w1 \<and> devices w' = devices w1 \<and>
         statsRuns w' = statsRuns w @ runs \<and> distinct runs \<and>
         set runs = d_shop ` set (Device_find (filterByIds deviceIds sh) w) \<and>
         (\<forall>sid \<in> set runs. \<exists>s. Shop_findById sid w' = Some s \<and>
            (if filter (\<lambda>u. u_shop u = Some sid) (users w') = []
              then Shop_findById sid w' = Shop_findById sid w
              else statistics s =
                \<lparr>totalUsers = length (filter (\<lambda>u. u_shop u = Some sid) (users w')),
                 activeUsers = length (filter u_isActive
                                 (filter (\<lambda>u. u_shop u = Some sid) (users w'))),
                 lockedDevices = length (filter (\<lambda>u. ds_isLocked (deviceStatus u))
                                   (filter (\<lambda>u. u_shop u = Some sid) (users w'))),
                 totalRevenue = sum_list (map (\<lambda>u. paidAmount (emiDetails u))
                                  (filter (\<lambda>u. u_shop u = Some sid) (users w')))\<rparr>)) \<and>
         (\<forall>sid. sid \<notin> set runs \<longrightarrow> Shop_findById sid w' = Shop_findById sid w)"
    apply (rule exI [where x = sh], rule exI [where x = "newSet (map d_shop ?ds)"])
    apply (rule exI [where x = results], rule exI [where x = w1])
    apply (intro conjI)
    apply (rule sc)
    apply (rule loop)
    apply (rule T [THEN conjunct1])
    apply (rule T [THEN conjunct2, THEN conjunct1])
    apply (rule T [THEN conjunct2, THEN conjunct2, THEN conjunct1])
    apply (rule distinct_newSet)
    apply (simp only: set_newSet list.set_map)
    apply (rule T [THEN conjunct2, THEN conjunct2, THEN conjunct2, THEN conjunct1])
    apply (rule T [THEN conjunct2, THEN conjunct2, THEN conjunct2, THEN conjunct2])
    done
next
  assume a: "bulkUnlockDevices deviceIds cu now w = (r, w') \<and> status r = 200"
  from a have ok: "status r = 200" by simp
  from a obtain sh where
    sc: "((u_role (cu_doc cu) = Superadmin \<and> sh = None) \<or>
          (u_role (cu_doc cu) = Shopowner \<and> (\<exists>cs. cu_shop cu = Some cs \<and> sh = Some (s_id cs))))"
    and run: "bulkUnlockFound (filterByIds deviceIds sh) now w = (r, w')"
    using bulkUnlockDevices_run by blast
  let ?ds = "Device_find (filterByIds deviceIds sh) w"
  let ?devs = "map (\<lambda>d. populateUserShop d w) ?ds"
  from run ok obtain results w1 ids where
    loop: "bulkUnlockEach ?devs now \<lparr>successful = [], failed = []\<rparr> w = (results, w1)"
    and ids: "shopIdsOf ?devs = Inr ids"
    and w': "w' = updateShops (newSet ids) w1"
    by (auto simp add: bulkUnlockFound_def Let_def fail_def respond_def
        split: if_splits prod.splits sum.splits)
  from bulkUnlockEach_frame [OF loop] have fr: "shops w1 = shops w" "statsRuns w1 = statsRuns w"
    by simp_all
  note T = bulk_statistics_tail [OF ids fr w']
  show "\<exists>sh runs results w1.
         ((u_role (cu_doc cu) = Superadmin \<and> sh = None) \<or>
          (u_role (cu_doc cu) = Shopowner \<and> (\<exists>cs. cu_shop cu = Some cs \<and> sh = Some (s_id cs)))) \<and>
         bulkUnlockEach (map (\<lambda>d. populateUserShop d w) (Device_find (filterByIds deviceIds sh) w))
           now \<lparr>successful = [], failed = []\<rparr> w = (results, w1) \<and>
         users w' = users w1 \<and> devices w' = devices w1 \<and>
         statsRuns w' = statsRuns w @ runs \<and> distinct runs \<and>
         set runs = d_shop ` set (Device_find (filterByIds deviceIds sh) w) \<and>
         (\<forall>sid \<in> set runs. \<exists>s. Shop_findById sid w' = Some s \<and>
            (if filter (\<lambda>u. u_shop u = Some sid) (users w') = []
              then Shop_findById sid w' = Shop_findById sid w
              else statistics s =
                \<lparr>totalUsers = length (filter (\<lambda>u. u_shop u = Some sid) (users w')),
                 activeUsers = length (filter u_isActive
                                 (filter (\<lambda>u. u_shop u = Some sid) (users w'))),
                 lockedDevices = length (filter (\<lambda>u. ds_isLocked (deviceStatus u))
                                   (filter (\<lambda>u. u_shop u = Some sid) (users w'))),
                 totalRevenue = sum_list (map (\<lambda>u. paidAmount (emiDetails u))
                                  (filter (\<lambda>u. u_shop u = Some sid) (users w')))\<rparr>)) \<and>
         (\<forall>sid. sid \<notin> set runs \<longrightarrow> Shop_findById sid w' = Shop_findById sid w)"
    apply (rule exI [where x = sh], rule exI [where x = "newSet (map d_shop ?ds)"])
    apply (rule exI [where x = results], rule exI [where x = w1])
    apply (intro conjI)
    apply (rule sc)
    apply (rule loop)
    apply (rule T [THEN conjunct1])
    apply (rule T [THEN conjunct2, THEN conjunct1])
    apply (rule T [THEN conjunct2, THEN conjunct2, THEN conjunct1])
    apply (rule distinct_newSet)
    apply (simp only: set_newSet list.set_map)
    apply (rule T [THEN conjunct2, THEN conjunct2, THEN conjunct2, THEN conjunct1])
    apply (rule T [THEN conjunct2, THEN conjunct2, THEN conjunct2, THEN conjunct2])
    done
next
  assume c: "((u_role (cu_doc cu) = Superadmin \<and> sh = None) \<or>
          (u_role (cu_doc cu) = Shopowner \<and> (\<exists>cs. cu_shop cu = Some cs \<and> sh = Some (s_id cs)))) \<and>
    deviceIds \<noteq> [] \<and> Device_find (filterByIds deviceIds sh) w \<noteq> [] \<and>
    (\<forall>d \<in> set (Device_find (filterByIds deviceIds sh) w). Shop_findById (d_shop d) w \<noteq> None)"
  then show "status (fst (bulkLockDevices deviceIds reasonOpt cu now w)) = 200"
    by (intro bulkLockDevices_completes [where sh = sh]) blast+
next
  assume c: "((u_role (cu_doc cu) = Superadmin \<and> sh = None) \<or>
          (u_role (cu_doc cu) = Shopowner \<and> (\<exists>cs. cu_shop cu = Some cs \<and> sh = Some (s_id cs)))) \<and>
    deviceIds \<noteq> [] \<and> Device_find (filterByIds deviceIds sh) w \<noteq> [] \<and>
    (\<forall>d \<in> set (Device_find (filterByIds deviceIds sh) w). Shop_findById (d_shop d) w \<noteq> None)"
  then show "status (fst (bulkUnlockDevices deviceIds cu now w)) = 200"
    by (intro bulkUnlockDevices_completes [where sh = sh]) blast+
qed

theorem C6_bulk_statistics_once_per_shop_witness:
  "status (fst (bulkLockDevices [''d1'', ''d2''] (Some ''manual_lock'') ex_admin 10 ex_world)) = 200 \<and>
   status (fst (bulkUnlockDevices [''d1'', ''d2''] ex_admin 10 ex_world)) = 200 \<and>
   map d_shop (Device_find (filterByIds [''d1'', ''d2''] None) ex_world) = [''s1'', ''s1''] \<and>
   map_option statistics (Shop_findById ''s1'' ex_world) =
     Some \<lparr>totalUsers = 7, activeUsers = 7, lockedDevices = 7, totalRevenue = 7\<rparr> \<and>
   statsRuns (snd (bulkLockDevices [''d1'', ''d2''] (Some ''manual_lock'') ex_admin 10 ex_world)) = statsRuns ex_world @ [''s1''] \<and>
   map_option statistics (Shop_findById ''s1'' (snd (bulkLockDevices [''d1'', ''d2''] (Some ''manual_lock'') ex_admin 10 ex_world))) = Some \<lparr>totalUsers = 5, activeUsers = 3, lockedDevices = 2, totalRevenue = 1400\<rparr> \<and>
   Shop_findById ''s2'' (snd (bulkLockDevices [''d1'', ''d2''] (Some ''manual_lock'') ex_admin 10 ex_world)) = Shop_findById ''s2'' ex_world \<and>
   statsRuns (snd (bulkUnlockDevices [''d1'', ''d2''] ex_admin 10 ex_world)) = statsRuns ex_world @ [''s1''] \<and>
   map_option statistics (Shop_findById ''s1'' (snd (bulkUnlockDevices [''d1'', ''d2''] ex_admin 10 ex_world))) = Some \<lparr>totalUsers = 5, activeUsers = 3, lockedDevices = 0, totalRevenue = 1400\<rparr> \<and>
   Shop_findById ''s2'' (snd (bulkUnlockDevices [''d1'', ''d2''] ex_admin 10 ex_world)) = Shop_findById ''s2'' ex_world"
proof -
  have role: "u_role (cu_doc ex_admin) = Superadmin"
    by (simp add: ex_admin_def ex_a1_def ex_user_def)
  have pre: "((u_role (cu_doc ex_admin) = Superadmin \<and> (None :: oid option) = None) \<or>
              (u_role (cu_doc ex_admin) = Shopowner \<and>
               (\<exists>cs. cu_shop ex_admin = Some cs \<and> None = Some (s_id cs)))) \<and>
             [''d1'', ''d2''] \<noteq> [] \<and>
             Device_find (filterByIds [''d1'', ''d2''] None) ex_world \<noteq> [] \<and>
             (\<forall>d \<in> set (Device_find (filterByIds [''d1'', ''d2''] None) ex_world).
                Shop_findById (d_shop d) ex_world \<noteq> None)"
    using role
    by (simp add: Device_find_def filterByIds_def Shop_findById_def ex_world_def ex_device_def
        ex_shop_def)
  note tC = C6_bulk_statistics_once_per_shop
      [where deviceIds = "[''d1'', ''d2'']" and reasonOpt = "Some ''manual_lock''"
         and cu = ex_admin and now = 10 and w = ex_world and sh = None,
          THEN conjunct2, THEN conjunct2, THEN mp, OF pre]
  from tC have okL:
    "status (fst (bulkLockDevices [''d1'', ''d2''] (Some ''manual_lock'') ex_admin 10 ex_world)) = 200"
    by (rule conjunct1)
  from tC have okU: "status (fst (bulkUnlockDevices [''d1'', ''d2''] ex_admin 10 ex_world)) = 200"
    by (rule conjunct2)
  have dl: "map d_shop (Device_find (filterByIds [''d1'', ''d2''] None) ex_world) = [''s1'', ''s1'']"
    by (simp add: Device_find_def filterByIds_def ex_world_def ex_device_def)
  then have ds: "d_shop ` set (Device_find (filterByIds [''d1'', ''d2''] None) ex_world) = {''s1''}"
    by (simp flip: set_map)
  have before: "map_option statistics (Shop_findById ''s1'' ex_world) =
     Some \<lparr>totalUsers = 7, activeUsers = 7, lockedDevices = 7, totalRevenue = 7\<rparr>"
    by (simp add: Shop_findById_def ex_world_def ex_shop_def)
  note tL = C6_bulk_statistics_once_per_shop
      [of "[''d1'', ''d2'']" "Some ''manual_lock''" ex_admin 10 ex_world
          "fst (bulkLockDevices [''d1'', ''d2''] (Some ''manual_lock'') ex_admin 10 ex_world)"
          "snd (bulkLockDevices [''d1'', ''d2''] (Some ''manual_lock'') ex_admin 10 ex_world)", THEN conjunct1]
  note tU = C6_bulk_statistics_once_per_shop
      [of "[''d1'', ''d2'']" _ ex_admin 10 ex_world
          "fst (bulkUnlockDevices [''d1'', ''d2''] ex_admin 10 ex_world)"
          "snd (bulkUnlockDevices [''d1'', ''d2''] ex_admin 10 ex_world)",
          THEN conjunct2, THEN conjunct1]
  have L: "statsRuns (snd (bulkLockDevices [''d1'', ''d2''] (Some ''manual_lock'') ex_admin 10 ex_world)) = statsRuns ex_world @ [''s1''] \<and>
           map_option statistics (Shop_findById ''s1'' (snd (bulkLockDevices [''d1'', ''d2''] (Some ''manual_lock'') ex_admin 10 ex_world))) = Some \<lparr>totalUsers = 5, activeUsers = 3, lockedDevices = 2, totalRevenue = 1400\<rparr> \<and>
           Shop_findById ''s2'' (snd (bulkLockDevices [''d1'', ''d2''] (Some ''manual_lock'') ex_admin 10 ex_world)) = Shop_findById ''s2'' ex_world"
  proof -
  have evL: "filter (\<lambda>u. u_shop u = Some ''s1'') (users (snd (bulkLockDevices [''d1'', ''d2''] (Some ''manual_lock'') ex_admin 10 ex_world))) \<noteq> [] \<and>
       \<lparr>totalUsers = length (filter (\<lambda>u. u_shop u = Some ''s1'') (users (snd (bulkLockDevices [''d1'', ''d2''] (Some ''manual_lock'') ex_admin 10 ex_world)))),
        activeUsers = length (filter u_isActive
                        (filter (\<lambda>u. u_shop u = Some ''s1'') (users (snd (bulkLockDevices [''d1'', ''d2''] (Some ''manual_lock'') ex_admin 10 ex_world))))),
        lockedDevices = length (filter (\<lambda>u. ds_isLocked (deviceStatus u))
                          (filter (\<lambda>u. u_shop u = Some ''s1'') (users (snd (bulkLockDevices [''d1'', ''d2''] (Some ''manual_lock'') ex_admin 10 ex_world))))),
        totalRevenue = sum_list (map (\<lambda>u. paidAmount (emiDetails u))
                         (filter (\<lambda>u. u_shop u = Some ''s1'') (users (snd (bulkLockDevices [''d1'', ''d2''] (Some ''manual_lock'') ex_admin 10 ex_world)))))\<rparr> =
       \<lparr>totalUsers = 5, activeUsers = 3, lockedDevices = 2, totalRevenue = 1400\<rparr>"
    by code_simp
  from tL [THEN mp, OF conjI [OF prod.collapse [symmetric] okL]]
  obtain sh runs where
    sc: "(u_role (cu_doc ex_admin) = Superadmin \<and> sh = None) \<or>
         (u_role (cu_doc ex_admin) = Shopowner \<and> (\<exists>cs. cu_shop ex_admin = Some cs \<and> sh = Some (s_id cs)))"
    and r: "statsRuns (snd (bulkLockDevices [''d1'', ''d2''] (Some ''manual_lock'') ex_admin 10 ex_world)) = statsRuns ex_world @ runs" "distinct runs"
           "set runs = d_shop ` set (Device_find (filterByIds [''d1'', ''d2''] sh) ex_world)"
    and st: "\<forall>sid \<in> set runs. \<exists>s. Shop_findById sid (snd (bulkLockDevices [''d1'', ''d2''] (Some ''manual_lock'') ex_admin 10 ex_world)) = Some s \<and>
            (if filter (\<lambda>u. u_shop u = Some sid) (users (snd (bulkLockDevices [''d1'', ''d2''] (Some ''manual_lock'') ex_admin 10 ex_world))) = []
              then Shop_findById sid (snd (bulkLockDevices [''d1'', ''d2''] (Some ''manual_lock'') ex_admin 10 ex_world)) = Shop_findById sid ex_world
              else statistics s =
                \<lparr>totalUsers = length (filter (\<lambda>u. u_shop u = Some sid) (users (snd (bulkLockDevices [''d1'', ''d2''] (Some ''manual_lock'') ex_admin 10 ex_world)))),
                 activeUsers = length (filter u_isActive
                                 (filter (\<lambda>u. u_shop u = Some sid) (users (snd (bulkLockDevices [''d1'', ''d2''] (Some ''manual_lock'') ex_admin 10 ex_world))))),
                 lockedDevices = length (filter (\<lambda>u. ds_isLocked (deviceStatus u))
                                   (filter (\<lambda>u. u_shop u = Some sid) (users (snd (bulkLockDevices [''d1'', ''d2''] (Some ''manual_lock'') ex_admin 10 ex_world))))),
                 totalRevenue = sum_list (map (\<lambda>u. paidAmount (emiDetails u))
                                  (filter (\<lambda>u. u_shop u = Some sid) (users (snd (bulkLockDevices [''d1'', ''d2''] (Some ''manual_lock'') ex_admin 10 ex_world)))))\<rparr>)"
    and oth: "\<forall>sid. sid \<notin> set runs \<longrightarrow> Shop_findById sid (snd (bulkLockDevices [''d1'', ''d2''] (Some ''manual_lock'') ex_admin 10 ex_world)) = Shop_findById sid ex_world"
    by blast
  from sc role have "sh = None" by simp
  with r(3) ds have "set runs = {''s1''}" by simp
  with r(2) have runs: "runs = [''s1'']" by (rule distinct_singleton_list)
  have "''s1'' \<in> set runs" by (simp add: runs)
  with st obtain s where
    s: "Shop_findById ''s1'' (snd (bulkLockDevices [''d1'', ''d2''] (Some ''manual_lock'') ex_admin 10 ex_world)) = Some s"
    and "(if filter (\<lambda>u. u_shop u = Some ''s1'') (users (snd (bulkLockDevices [''d1'', ''d2''] (Some ''manual_lock'') ex_admin 10 ex_world))) = []
              then Shop_findById ''s1'' (snd (bulkLockDevices [''d1'', ''d2''] (Some ''manual_lock'') ex_admin 10 ex_world)) = Shop_findById ''s1'' ex_world
              else statistics s =
                \<lparr>totalUsers = length (filter (\<lambda>u. u_shop u = Some ''s1'') (users (snd (bulkLockDevices [''d1'', ''d2''] (Some ''manual_lock'') ex_admin 10 ex_world)))),
                 activeUsers = length (filter u_isActive
                                 (filter (\<lambda>u. u_shop u = Some ''s1'') (users (snd (bulkLockDevices [''d1'', ''d2''] (Some ''manual_lock'') ex_admin 10 ex_world))))),
                 lockedDevices = length (filter (\<lambda>u. ds_isLocked (deviceStatus u))
                                   (filter (\<lambda>u. u_shop u = Some ''s1'') (users (snd (bulkLockDevices [''d1'', ''d2''] (Some ''manual_lock'') ex_admin 10 ex_world))))),
                 totalRevenue = sum_list (map (\<lambda>u. paidAmount (emiDetails u))
                                  (filter (\<lambda>u. u_shop u = Some ''s1'') (users (snd (bulkLockDevices [''d1'', ''d2''] (Some ''manual_lock'') ex_admin 10 ex_world)))))\<rparr>)"
    by (blast dest: bspec)
  with evL have "statistics s = \<lparr>totalUsers = 5, activeUsers = 3, lockedDevices = 2, totalRevenue = 1400\<rparr>" by simp
  with s have statL: "map_option statistics (Shop_findById ''s1'' (snd (bulkLockDevices [''d1'', ''d2''] (Some ''manual_lock'') ex_admin 10 ex_world))) = Some \<lparr>totalUsers = 5, activeUsers = 3, lockedDevices = 2, totalRevenue = 1400\<rparr>"
    by simp
  from oth runs have otherL: "Shop_findById ''s2'' (snd (bulkLockDevices [''d1'', ''d2''] (Some ''manual_lock'') ex_admin 10 ex_world)) = Shop_findById ''s2'' ex_world"
    by simp
  from r(1) runs have runsL: "statsRuns (snd (bulkLockDevices [''d1'', ''d2''] (Some ''manual_lock'') ex_admin 10 ex_world)) = statsRuns ex_world @ [''s1'']" by simp
    from runsL statL otherL show ?thesis by blast
  qed
  have U: "statsRuns (snd (bulkUnlockDevices [''d1'', ''d2''] ex_admin 10 ex_world)) = statsRuns ex_world @ [''s1''] \<and>
           map_option statistics (Shop_findById ''s1'' (snd (bulkUnlockDevices [''d1'', ''d2''] ex_admin 10 ex_world))) = Some \<lparr>totalUsers = 5, activeUsers = 3, lockedDevices = 0, totalRevenue = 1400\<rparr> \<and>
           Shop_findById ''s2'' (snd (bulkUnlockDevices [''d1'', ''d2''] ex_admin 10 ex_world)) = Shop_findById ''s2'' ex_world"
  proof -
  have evU: "filter (\<lambda>u. u_shop u = Some ''s1'') (users (snd (bulkUnlockDevices [''d1'', ''d2''] ex_admin 10 ex_world))) \<noteq> [] \<and>
       \<lparr>totalUsers = length (filter (\<lambda>u. u_shop u = Some ''s1'') (users (snd (bulkUnlockDevices [''d1'', ''d2''] ex_admin 10 ex_world)))),
        activeUsers = length (filter u_isActive
                        (filter (\<lambda>u. u_shop u = Some ''s1'') (users (snd (bulkUnlockDevices [''d1'', ''d2''] ex_admin 10 ex_world))))),
        lockedDevices = length (filter (\<lambda>u. ds_isLocked (deviceStatus u))
                          (filter (\<lambda>u. u_shop u = Some ''s1'') (users (snd (bulkUnlockDevices [''d1'', ''d2''] ex_admin 10 ex_world))))),
        totalRevenue = sum_list (map (\<lambda>u. paidAmount (emiDetails u))
                         (filter (\<lambda>u. u_shop u = Some ''s1'') (users (snd (bulkUnlockDevices [''d1'', ''d2''] ex_admin 10 ex_world)))))\<rparr> =
       \<lparr>totalUsers = 5, activeUsers = 3, lockedDevices = 0, totalRevenue = 1400\<rparr>"
    by code_simp
  from tU [THEN mp, OF conjI [OF prod.collapse [symmetric] okU]]
  obtain sh runs where
    sc: "(u_role (cu_doc ex_admin) = Superadmin \<and> sh = None) \<or>
         (u_role (cu_doc ex_admin) = Shopowner \<and> (\<exists>cs. cu_shop ex_admin = Some cs \<and> sh = Some (s_id cs)))"
    and r: "statsRuns (snd (bulkUnlockDevices [''d1'', ''d2''] ex_admin 10 ex_world)) = statsRuns ex_world @ runs" "distinct runs"
           "set runs = d_shop ` set (Device_find (filterByIds [''d1'', ''d2''] sh) ex_world)"
    and st: "\<forall>sid \<in> set runs. \<exists>s. Shop_findById sid (snd (bulkUnlockDevices [''d1'', ''d2''] ex_admin 10 ex_world)) = Some s \<and>
            (if filter (\<lambda>u. u_shop u = Some sid) (users (snd (bulkUnlockDevices [''d1'', ''d2''] ex_admin 10 ex_world))) = []
              then Shop_findById sid (snd (bulkUnlockDevices [''d1'', ''d2''] ex_admin 10 ex_world)) = Shop_findById sid ex_world
              else statistics s =
                \<lparr>totalUsers = length (filter (\<lambda>u. u_shop u = Some sid) (users (snd (bulkUnlockDevices [''d1'', ''d2''] ex_admin 10 ex_world)))),
                 activeUsers = length (filter u_isActive
                                 (filter (\<lambda>u. u_shop u = Some sid) (users (snd (bulkUnlockDevices [''d1'', ''d2''] ex_admin 10 ex_world))))),
                 lockedDevices = length (filter (\<lambda>u. ds_isLocked (deviceStatus u))
                                   (filter (\<lambda>u. u_shop u = Some sid) (users (snd (bulkUnlockDevices [''d1'', ''d2''] ex_admin 10 ex_world))))),
                 totalRevenue = sum_list (map (\<lambda>u. paidAmount (emiDetails u))
                                  (filter (\<lambda>u. u_shop u = Some sid) (users (snd (bulkUnlockDevices [''d1'', ''d2''] ex_admin 10 ex_world)))))\<rparr>)"
    and oth: "\<forall>sid. sid \<notin> set runs \<longrightarrow> Shop_findById sid (snd (bulkUnlockDevices [''d1'', ''d2''] ex_admin 10 ex_world)) = Shop_findById sid ex_world"
    by blast
  from sc role have "sh = None" by simp
  with r(3) ds have "set runs = {''s1''}" by simp
  with r(2) have runs: "runs = [''s1'']" by (rule distinct_singleton_list)
  have "''s1'' \<in> set runs" by (simp add: runs)
  with st obtain s where
    s: "Shop_findById ''s1'' (snd (bulkUnlockDevices [''d1'', ''d2''] ex_admin 10 ex_world)) = Some s"
    and "(if filter (\<lambda>u. u_shop u = Some ''s1'') (users (snd (bulkUnlockDevices [''d1'', ''d2''] ex_admin 10 ex_world))) = []
              then Shop_findById ''s1'' (snd (bulkUnlockDevices [''d1'', ''d2''] ex_admin 10 ex_world)) = Shop_findById ''s1'' ex_world
              else statistics s =
                \<lparr>totalUsers = length (filter (\<lambda>u. u_shop u = Some ''s1'') (users (snd (bulkUnlockDevices [''d1'', ''d2''] ex_admin 10 ex_world)))),
                 activeUsers = length (filter u_isActive
                                 (filter (\<lambda>u. u_shop u = Some ''s1'') (users (snd (bulkUnlockDevices [''d1'', ''d2''] ex_admin 10 ex_world))))),
                 lockedDevices = length (filter (\<lambda>u. ds_isLocked (deviceStatus u))
                                   (filter (\<lambda>u. u_shop u = Some ''s1'') (users (snd (bulkUnlockDevices [''d1'', ''d2''] ex_admin 10 ex_world))))),
                 totalRevenue = sum_list (map (\<lambda>u. paidAmount (emiDetails u))
                                  (filter (\<lambda>u. u_shop u = Some ''s1'') (users (snd (bulkUnlockDevices [''d1'', ''d2''] ex_admin 10 ex_world)))))\<rparr>)"
    by (blast dest: bspec)
  with evU have "statistics s = \<lparr>totalUsers = 5, activeUsers = 3, lockedDevices = 0, totalRevenue = 1400\<rparr>" by simp
  with s have statU: "map_option statistics (Shop_findById ''s1'' (snd (bulkUnlockDevices [''d1'', ''d2''] ex_admin 10 ex_world))) = Some \<lparr>totalUsers = 5, activeUsers = 3, lockedDevices = 0, totalRevenue = 1400\<rparr>"
    by simp
  from oth runs have otherU: "Shop_findById ''s2'' (snd (bulkUnlockDevices [''d1'', ''d2''] ex_admin 10 ex_world)) = Shop_findById ''s2'' ex_world"
    by simp
  from r(1) runs have runsU: "statsRuns (snd (bulkUnlockDevices [''d1'', ''d2''] ex_admin 10 ex_world)) = statsRuns ex_world @ [''s1'']" by simp
    from runsU statU otherU show ?thesis by blast
  qed
  from okL okU dl before L U show ?thesis by blast
qed

end
